theory Spec2Isabelle
  imports Main
begin

section \<open>JavaScript values the program relies on\<close>

text \<open>
  An async function of the program ends in one of three ways: it returns, it throws an
  \<open>Error\<close> (modelled by its message), or a call of \<open>process.exit(code)\<close> inside it
  ends the process.
\<close>

datatype 'a completion = Returned 'a | Threw string | ProcessExit int

subsection \<open>Strings\<close>

text \<open>
  The two regular expressions of the poller, \<open>/^94\d{9}$/\<close> and \<open>/^0\d{9}$/\<close>, are
  sequences of atoms anchored at both ends: a literal character or the class \<open>\d\<close>
  (the ten ASCII digits). \<open>regex_test\<close> is \<open>RegExp.prototype.test\<close> for such a pattern.
\<close>

datatype atom = Lit char | Digit

definition isDigit :: "char \<Rightarrow> bool" where
  "isDigit c = (c \<in> set ''0123456789'')"

fun matchAtom :: "atom \<Rightarrow> char \<Rightarrow> bool" where
  "matchAtom (Lit l) c = (c = l)"
| "matchAtom Digit c = isDigit c"

fun regex_test :: "atom list \<Rightarrow> string \<Rightarrow> bool" where
  "regex_test [] [] = True"
| "regex_test (a # as) (c # cs) = (matchAtom a c \<and> regex_test as cs)"
| "regex_test _ _ = False"

definition re_international :: "atom list" where
  "re_international = [Lit CHR ''9'', Lit CHR ''4''] @ replicate 9 Digit"

definition re_local :: "atom list" where
  "re_local = Lit CHR ''0'' # replicate 9 Digit"

text \<open>\<open>String.prototype.slice(n)\<close> with \<open>n \<ge> 0\<close> drops the first \<open>n\<close> code units.\<close>

definition slice :: "nat \<Rightarrow> string \<Rightarrow> string" where
  "slice n s = drop n s"

text \<open>
  The texts the program trims and splits (the gateway's reply, the stored user name and
  password, the folder path) are JavaScript strings with any content: sequences of
  UTF-16 code units. \<open>units\<close> turns a text of the model into its code units.
\<close>

type_synonym text16 = "nat list"

definition units :: "string \<Rightarrow> text16" where
  "units s = map of_char s"

text \<open>
  \<open>String.prototype.trim\<close> removes white space and line terminators at both ends:
  the code units U+0009 to U+000D, U+0020, U+00A0, U+1680, U+2000 to U+200A, U+2028,
  U+2029, U+202F, U+205F, U+3000 and U+FEFF.
\<close>

definition isWhiteSpace :: "nat \<Rightarrow> bool" where
  "isWhiteSpace u =
     ((9 \<le> u \<and> u \<le> 13) \<or> u = 32 \<or> u = 160 \<or> u = 5760 \<or> (8192 \<le> u \<and> u \<le> 8202) \<or>
      u = 8232 \<or> u = 8233 \<or> u = 8239 \<or> u = 8287 \<or> u = 12288 \<or> u = 65279)"

definition trim :: "text16 \<Rightarrow> text16" where
  "trim s = rev (dropWhile isWhiteSpace (rev (dropWhile isWhiteSpace s)))"

text \<open>
  \<open>s.split(sep)\<close> for a one-character separator: the pieces between the separators,
  never an empty array (\<open>"".split(":")\<close> is \<open>[""]\<close>).
\<close>

fun split :: "'a \<Rightarrow> 'a list \<Rightarrow> 'a list list" where
  "split sep [] = [[]]"
| "split sep (c # cs) =
     (if c = sep then [] # split sep cs
      else (case split sep cs of
              [] \<Rightarrow> [[c]]
            | w # ws \<Rightarrow> (c # w) # ws))"

text \<open>\<open>s.includes(p)\<close>: \<open>p\<close> occurs in \<open>s\<close> as a contiguous run.\<close>

fun startsWith :: "string \<Rightarrow> string \<Rightarrow> bool" where
  "startsWith s [] = True"
| "startsWith [] (p # ps) = False"
| "startsWith (c # cs) (p # ps) = (c = p \<and> startsWith cs ps)"

fun str_includes :: "string \<Rightarrow> string \<Rightarrow> bool" where
  "str_includes [] p = startsWith [] p"
| "str_includes (c # cs) p = (startsWith (c # cs) p \<or> str_includes cs p)"

text \<open>
  Values interpolated into a template literal: \<open>undefined\<close> (the result of \<open>?.trim()\<close>
  on a null column) prints as the text \<open>undefined\<close>, \<open>null\<close> (a folder id that was never
  set) as the text \<open>null\<close>.
\<close>

definition interpolate :: "text16 option \<Rightarrow> text16" where
  "interpolate v = (case v of None \<Rightarrow> units ''undefined'' | Some s \<Rightarrow> s)"

definition interpolateId :: "string option \<Rightarrow> string" where
  "interpolateId v = (case v of None \<Rightarrow> ''null'' | Some s \<Rightarrow> s)"

section \<open>Phone validation of the poller\<close>

text \<open>
  Lines 332 to 341 of the poller: \<open>customerPhone\<close> for a raw \<open>MOBILENO\<close>, or \<open>None\<close>
  where the loop body warns and executes \<open>continue\<close>. \<open>MOBILENO\<close> is a character column,
  so the raw value is a string.
\<close>

definition customerPhone :: "string \<Rightarrow> string option" where
  "customerPhone rawPhone =
     (if regex_test re_international rawPhone then Some (''0'' @ slice 2 rawPhone)
      else if regex_test re_local rawPhone then Some rawPhone
      else None)"


section \<open>The database\<close>

text \<open>
  The three tables the program reads and writes, with the columns it names.
  \<open>DOWNLOAD\<close> is \<open>''F''\<close> for a pending row and \<open>''T''\<close> for an uploaded one; \<open>IDX\<close>
  identifies a row of \<open>tb_SMART_INVOICE\<close>. A nullable column is an \<open>option\<close>.
  Comparisons in the queries are taken as plain equality of the stored text.
\<close>

record invoice =
  IDX :: nat
  CUSTOMERID :: string
  MOBILENO :: string
  FILENAME :: string
  PDFDATA :: string
  DOWNLOAD :: string

record sms_main =
  CUSTOMER_ID :: string
  SMARTINVOICE_ACTIVE :: string
  SMS_USERNAME :: "text16 option"
  SMS_PASSWORD :: "text16 option"

record sms_log =
  LOG_CUSTOMER_ID :: string
  LOG_SMS_USER :: "text16 option"
  LOG_SMS_PASSWORD :: "text16 option"
  LOG_PHONE_NUMBER :: string
  LOG_URL :: string

type_synonym folder_id = "string option"

text \<open>
  Every call that leaves the process is recorded, in order, whether it succeeds or not.
  \<open>CallSendSMS\<close> marks the entry into \<open>sendSMS\<close> with its three arguments.
\<close>

datatype event =
    MssqlConnect
  | QueryPending
  | DriveFilesCreate string string folder_id
  | DrivePermissionsCreate string
  | QueryUpdateDownload nat
  | CallSendSMS string string string
  | QueryProfile string
  | HttpGet text16
  | QueryInsertLog sms_log

text \<open>
  The state the poller works on: the module variable \<open>pool\<close> of \<open>config/db.js\<close>
  (set or not), the tables, and the calls made so far.
\<close>

record world =
  pool :: bool
  tb_SMART_INVOICE :: "invoice list"
  tb_SMS_MAIN :: "sms_main list"
  tb_SMS_LOG :: "sms_log list"
  trace :: "event list"

definition emit :: "event \<Rightarrow> world \<Rightarrow> world" where
  "emit e w = w\<lparr>trace := trace w @ [e]\<rparr>"

text \<open>
  \<open>connectToDatabase\<close> of \<open>config/db.js\<close>. Its argument is what \<open>mssql.connect\<close> does
  if it is called: \<open>None\<close> when it resolves, \<open>Some msg\<close> when it rejects. The existing
  pool is reused; a failed connection ends the process with code 1.
\<close>

definition connectToDatabase :: "string option \<Rightarrow> world \<Rightarrow> unit completion \<times> world" where
  "connectToDatabase mssql_connect w =
     (if pool w then (Returned (), w)
      else (case mssql_connect of
              None \<Rightarrow> (Returned (), (emit MssqlConnect w)\<lparr>pool := True\<rparr>)
            | Some msg \<Rightarrow> (ProcessExit 1, emit MssqlConnect w)))"

section \<open>Upload to the storage provider\<close>

text \<open>
  What the two Drive calls of \<open>uploadToDrive\<close> answer: \<open>files.create\<close> rejects with a
  message or yields the new file's id and link, \<open>permissions.create\<close> rejects or not.
  The parameter \<open>auth\<close> of the source is the client obtained at startup; it is the same
  in every call and is left out. The \<open>catch\<close> of \<open>uploadToDrive\<close> logs and throws again.
\<close>

record drive_env =
  files_create :: "string + (string \<times> string)"
  permissions_create :: "string option"

definition uploadToDrive ::
  "drive_env \<Rightarrow> string \<Rightarrow> string \<Rightarrow> folder_id \<Rightarrow> world \<Rightarrow> string completion \<times> world" where
  "uploadToDrive env pdfBuffer fileName folderId w =
     (let w1 = emit (DriveFilesCreate fileName pdfBuffer folderId) w in
      case files_create env of
        Inl msg \<Rightarrow> (Threw msg, w1)
      | Inr (fileId, webViewLink) \<Rightarrow>
          (let w2 = emit (DrivePermissionsCreate fileId) w1 in
           case permissions_create env of
             Some msg \<Rightarrow> (Threw msg, w2)
           | None \<Rightarrow> (Returned webViewLink, w2)))"

section \<open>Notification\<close>

text \<open>
  \<open>response.data\<close> of the HTTP GET: a text, or a value of another type (the HTTP
  client parses a body that is valid JSON), on which \<open>.trim()\<close> throws a \<open>TypeError\<close>.
\<close>

datatype response_data = Text text16 | NotText

text \<open>
  What the outside answers during one call of \<open>sendSMS\<close>: the connection attempt (only
  made when no pool exists), the profile query, the HTTP GET (by URL: a rejection or
  \<open>response.data\<close>) and the insert into the log. \<open>querystring.escape\<close> is a library
  function outside the repository and is taken as a parameter.
\<close>

record sms_env =
  sms_connect :: "string option"
  profile_query_error :: "string option"
  querystring_escape :: "string \<Rightarrow> string"
  axios_get :: "text16 \<Rightarrow> string + response_data"
  log_insert_error :: "string option"

definition smsUrl :: "sms_env \<Rightarrow> sms_main \<Rightarrow> string \<Rightarrow> string \<Rightarrow> text16" where
  "smsUrl env profile phone link =
     (let smsUser = map_option trim (SMS_USERNAME profile);
          smsPassword = map_option trim (SMS_PASSWORD profile);
          text = ''Dear customer, your bill is available at: '' @ link;
          encodedText = querystring_escape env text
      in units ''https://textit.biz/sendmsg/?id='' @ interpolate smsUser @ units ''&pw='' @
         interpolate smsPassword @ units ''&to='' @ units phone @ units ''&text='' @
         units encodedText)"

definition logRecord :: "sms_main \<Rightarrow> string \<Rightarrow> string \<Rightarrow> string \<Rightarrow> sms_log" where
  "logRecord profile phone customerID link =
     \<lparr>LOG_CUSTOMER_ID = customerID,
      LOG_SMS_USER = map_option trim (SMS_USERNAME profile),
      LOG_SMS_PASSWORD = map_option trim (SMS_PASSWORD profile),
      LOG_PHONE_NUMBER = phone,
      LOG_URL = link\<rparr>"

text \<open>
  Lines 236 to 259: the GET, the reply split at the colons, the comparison of the trimmed
  first piece with \<open>OK\<close>, and the insert into \<open>tb_SMS_LOG\<close>. Everything thrown here is
  caught by the \<open>catch\<close> of \<open>sendSMS\<close>, so the result is the world alone. The pieces
  after the first (\<open>res[1]\<close> is the detail) are only logged; \<open>split\<close> never yields the
  empty list.
\<close>

definition gatewaySend ::
  "sms_env \<Rightarrow> sms_main \<Rightarrow> string \<Rightarrow> string \<Rightarrow> string \<Rightarrow> world \<Rightarrow> world" where
  "gatewaySend env profile phone customerID link w =
     (let url = smsUrl env profile phone link;
          w1 = emit (HttpGet url) w in
      case axios_get env url of
        Inl msg \<Rightarrow> w1
      | Inr NotText \<Rightarrow> w1
      | Inr (Text data) \<Rightarrow>
          (case split (of_char CHR '':'') (trim data) of
             [] \<Rightarrow> w1
           | status # detail \<Rightarrow>
               if trim status = units ''OK'' then
                 (let entry = logRecord profile phone customerID link;
                      w2 = emit (QueryInsertLog entry) w1 in
                  case log_insert_error env of
                    Some msg \<Rightarrow> w2
                  | None \<Rightarrow> w2\<lparr>tb_SMS_LOG := tb_SMS_LOG w2 @ [entry]\<rparr>)
               else w1))"

text \<open>
  \<open>sendSMS\<close>: a \<open>try\<close> around the whole body whose \<open>catch\<close> only logs, so the function
  returns \<open>undefined\<close> on every path that does not end the process.
\<close>

definition sendSMS ::
  "sms_env \<Rightarrow> string \<Rightarrow> string \<Rightarrow> string \<Rightarrow> world \<Rightarrow> unit completion \<times> world" where
  "sendSMS env phone customerID link w =
     (case connectToDatabase (sms_connect env) (emit (CallSendSMS phone customerID link) w) of
        (ProcessExit code, w1) \<Rightarrow> (ProcessExit code, w1)
      | (Threw msg, w1) \<Rightarrow> (Returned (), w1)
      | (Returned u, w1) \<Rightarrow>
          (let w2 = emit (QueryProfile customerID) w1 in
           case profile_query_error env of
             Some msg \<Rightarrow> (Returned (), w2)
           | None \<Rightarrow>
               (case filter (\<lambda>p. CUSTOMER_ID p = customerID) (tb_SMS_MAIN w2) of
                  [] \<Rightarrow> (Returned (), w2)
                | profile # others \<Rightarrow>
                    if SMARTINVOICE_ACTIVE profile = ''T''
                    then (Returned (), gatewaySend env profile phone customerID link w2)
                    else (Returned (), w2))))"

section \<open>The poller\<close>

text \<open>
  What the outside answers while one row is processed, and during one tick. The answers
  of a tick are given per row of the record set.
\<close>

record row_env =
  drive_calls :: drive_env
  update_error :: "string option"
  sms_calls :: sms_env

record tick_env =
  tick_connect :: "string option"
  pending_query_error :: "string option"
  row_calls :: "invoice \<Rightarrow> row_env"

text \<open>\<open>UPDATE tb_SMART_INVOICE SET DOWNLOAD = 'T' WHERE IDX = @idx\<close>.\<close>

definition updateDownload :: "nat \<Rightarrow> world \<Rightarrow> world" where
  "updateDownload idx w =
     w\<lparr>tb_SMART_INVOICE :=
         map (\<lambda>r. if IDX r = idx then r\<lparr>DOWNLOAD := ''T''\<rparr> else r) (tb_SMART_INVOICE w)\<rparr>"

text \<open>\<open>SELECT * FROM tb_SMART_INVOICE WHERE DOWNLOAD = 'F'\<close>.\<close>

definition selectPending :: "world \<Rightarrow> invoice list" where
  "selectPending w = filter (\<lambda>r. DOWNLOAD r = ''F'') (tb_SMART_INVOICE w)"

text \<open>
  The statements inside the \<open>try\<close> of the loop body (lines 329 to 361). The \<open>continue\<close>
  on an invalid phone number leaves the body at once.
\<close>

definition rowBody :: "row_env \<Rightarrow> folder_id \<Rightarrow> invoice \<Rightarrow> world \<Rightarrow> unit completion \<times> world" where
  "rowBody env folderId row w =
     (case customerPhone (MOBILENO row) of
        None \<Rightarrow> (Returned (), w)
      | Some phone \<Rightarrow>
          (case uploadToDrive (drive_calls env) (PDFDATA row) (FILENAME row) folderId w of
             (Threw msg, w1) \<Rightarrow> (Threw msg, w1)
           | (ProcessExit code, w1) \<Rightarrow> (ProcessExit code, w1)
           | (Returned link, w1) \<Rightarrow>
               (let w2 = emit (QueryUpdateDownload (IDX row)) w1 in
                case update_error env of
                  Some msg \<Rightarrow> (Threw msg, w2)
                | None \<Rightarrow>
                    sendSMS (sms_calls env) phone (CUSTOMERID row) link
                      (updateDownload (IDX row) w2))))"

text \<open>The loop body with its \<open>catch (rowErr)\<close>, which logs and goes on.\<close>

definition processRow :: "row_env \<Rightarrow> folder_id \<Rightarrow> invoice \<Rightarrow> world \<Rightarrow> unit completion \<times> world" where
  "processRow env folderId row w =
     (case rowBody env folderId row w of
        (Threw msg, w1) \<Rightarrow> (Returned (), w1)
      | (ProcessExit code, w1) \<Rightarrow> (ProcessExit code, w1)
      | (Returned u, w1) \<Rightarrow> (Returned (), w1))"

text \<open>\<open>for (const row of result.recordset)\<close>: only the end of the process stops it.\<close>

fun processRows ::
  "(invoice \<Rightarrow> row_env) \<Rightarrow> folder_id \<Rightarrow> invoice list \<Rightarrow> world \<Rightarrow> unit completion \<times> world" where
  "processRows envs folderId [] w = (Returned (), w)"
| "processRows envs folderId (row # rest) w =
     (case processRow (envs row) folderId row w of
        (ProcessExit code, w1) \<Rightarrow> (ProcessExit code, w1)
      | (Threw msg, w1) \<Rightarrow> (Threw msg, w1)
      | (Returned u, w1) \<Rightarrow> processRows envs folderId rest w1)"

text \<open>One firing of the poll timer (lines 319 to 370), with its \<open>catch (pollErr)\<close>.\<close>

definition pollTick :: "tick_env \<Rightarrow> folder_id \<Rightarrow> world \<Rightarrow> unit completion \<times> world" where
  "pollTick env folderId w =
     (case connectToDatabase (tick_connect env) w of
        (ProcessExit code, w1) \<Rightarrow> (ProcessExit code, w1)
      | (Threw msg, w1) \<Rightarrow> (Returned (), w1)
      | (Returned u, w1) \<Rightarrow>
          (let w2 = emit QueryPending w1 in
           case pending_query_error env of
             Some msg \<Rightarrow> (Returned (), w2)
           | None \<Rightarrow>
               (case processRows (row_calls env) folderId (selectPending w2) w2 of
                  (ProcessExit code, w3) \<Rightarrow> (ProcessExit code, w3)
                | (Threw msg, w3) \<Rightarrow> (Returned (), w3)
                | (Returned u, w3) \<Rightarrow> (Returned (), w3))))"

text \<open>
  The \<open>UPDATE\<close> above is the only statement of the program that writes
  \<open>tb_SMART_INVOICE\<close>. The poll timer fires without waiting for the previous tick, so
  ticks can overlap; however they interleave, the table of a later moment is the table
  after some sequence of such updates.
\<close>

definition applyUpdates :: "nat list \<Rightarrow> world \<Rightarrow> world" where
  "applyUpdates idxs w = fold updateDownload idxs w"

subsection \<open>Notions used to state the properties\<close>

text \<open>The calls made between two worlds of one run.\<close>

definition since :: "world \<Rightarrow> world \<Rightarrow> event list" where
  "since w w' = drop (length (trace w)) (trace w')"

text \<open>
  The identifier is in the state Uploaded: the table has a row carrying it, and every
  row carrying it has \<open>DOWNLOAD\<close> \<open>T\<close>.
\<close>

definition isUploaded :: "nat \<Rightarrow> world \<Rightarrow> bool" where
  "isUploaded idx w =
     (list_ex (\<lambda>r. IDX r = idx) (tb_SMART_INVOICE w) \<and>
      list_all (\<lambda>r. IDX r = idx \<longrightarrow> DOWNLOAD r = ''T'') (tb_SMART_INVOICE w))"

text \<open>
  The invoice table of the second world is that of the first after some sequence of
  the program's updates.
\<close>

definition laterTable :: "world \<Rightarrow> world \<Rightarrow> bool" where
  "laterTable w w' = (\<exists>idxs. tb_SMART_INVOICE w' = tb_SMART_INVOICE (applyUpdates idxs w))"

text \<open>The row as it is once uploaded.\<close>

definition uploadedRow :: "invoice \<Rightarrow> invoice" where
  "uploadedRow row = row\<lparr>DOWNLOAD := ''T''\<rparr>"

text \<open>An upload call, and the upload call made for a row.\<close>

fun isUpload :: "event \<Rightarrow> bool" where
  "isUpload (DriveFilesCreate fileName pdfBuffer folderId) = True"
| "isUpload e = False"

definition uploadOf :: "folder_id \<Rightarrow> invoice \<Rightarrow> event" where
  "uploadOf folderId row = DriveFilesCreate (FILENAME row) (PDFDATA row) folderId"

text \<open>The local form of a phone number: the character 0 and nine digits.\<close>

definition localForm :: "string \<Rightarrow> bool" where
  "localForm s = (\<exists>ds. s = CHR ''0'' # ds \<and> length ds = 9 \<and> list_all isDigit ds)"

definition internationalForm :: "string \<Rightarrow> bool" where
  "internationalForm s = (\<exists>ds. s = ''94'' @ ds \<and> length ds = 9 \<and> list_all isDigit ds)"

text \<open>
  The profile found for a customer suppresses the notification: there is none, or the
  first one's \<open>SMARTINVOICE_ACTIVE\<close> is not \<open>T\<close>.
\<close>

definition suppressed :: "string \<Rightarrow> world \<Rightarrow> bool" where
  "suppressed customerID w =
     (case filter (\<lambda>p. CUSTOMER_ID p = customerID) (tb_SMS_MAIN w) of
        [] \<Rightarrow> True
      | profile # others \<Rightarrow> SMARTINVOICE_ACTIVE profile \<noteq> ''T'')"

fun isGatewayCall :: "event \<Rightarrow> bool" where
  "isGatewayCall (HttpGet url) = True"
| "isGatewayCall (QueryInsertLog entry) = True"
| "isGatewayCall e = False"

fun callsLocalPhone :: "event \<Rightarrow> bool" where
  "callsLocalPhone (CallSendSMS phone customerID link) = localForm phone"
| "callsLocalPhone e = True"

section \<open>Retention sweep\<close>

text \<open>
  A file of the storage provider, with the attributes the sweep's query and loop read.
  \<open>createdTime\<close> is the creation instant in milliseconds since the epoch (the value of
  \<open>new Date(file.createdTime)\<close>).
\<close>

record drive_file =
  file_id :: string
  file_name :: string
  createdTime :: int
  parents :: "string list"
  mimeType :: string
  trashed :: bool

text \<open>The provider's files, and the ids \<open>files.delete\<close> was called with, in order.\<close>

record drive_state =
  drive_files :: "drive_file list"
  delete_calls :: "string list"

text \<open>
  What the outside answers during one sweep: the clock (\<open>new Date()\<close>, milliseconds
  since the epoch); the host's time zone, as the offset of local time from UTC in
  effect at a UTC instant and at a local time value (\<open>LocalTZA(t, true)\<close> and
  \<open>LocalTZA(t, false)\<close> of the language standard); the number of files the provider puts
  on one page of a listing (the call names no \<open>pageSize\<close>, so it is the provider's
  choice, 100 by default); whether \<open>files.list\<close> rejects; and whether \<open>files.delete\<close>
  rejects for a file id.
\<close>

record sweep_env =
  currentDate :: int
  localTZA_utc :: "int \<Rightarrow> int"
  localTZA_local :: "int \<Rightarrow> int"
  page_size :: nat
  files_list_error :: "string option"
  files_delete_error :: "string \<Rightarrow> string option"

definition msPerDay :: int where
  "msPerDay = 24 * 60 * 60 * 1000"

text \<open>\<open>LocalTime\<close> and \<open>UTC\<close> of the language standard, for the host's time zone.\<close>

definition localTime :: "sweep_env \<Rightarrow> int \<Rightarrow> int" where
  "localTime env t = t + localTZA_utc env t"

definition utcTime :: "sweep_env \<Rightarrow> int \<Rightarrow> int" where
  "utcTime env t = t - localTZA_local env t"

text \<open>
  \<open>date.setDate(date.getDate() - 7)\<close> on a local time value: \<open>getDate\<close> is the day of
  the month of the local time, and \<open>setDate\<close> builds the local time with the same year,
  month and time within the day and the day of the month lowered by 7, which is the
  day number lowered by 7 (a day of the month below 1 counts back into the months
  before).
\<close>

definition setDateMinus7 :: "int \<Rightarrow> int" where
  "setDateMinus7 t = (t div msPerDay - 7) * msPerDay + t mod msPerDay"

text \<open>
  \<open>oneWeekAgo\<close> of lines 275 to 277: the instant with the local time of day of
  \<open>currentDate\<close>, seven calendar days earlier.
\<close>

definition oneWeekAgo :: "sweep_env \<Rightarrow> int" where
  "oneWeekAgo env = utcTime env (setDateMinus7 (localTime env (currentDate env)))"

text \<open>
  The query of \<open>files.list\<close>: PDF files that have the folder among their parents and
  are not in the bin, newest first (files created at the same instant in the order of
  the provider's store). The code calls \<open>files.list\<close> once and follows no
  \<open>nextPageToken\<close>, so \<open>res.data.files\<close> is the first page of that list.
\<close>

definition inFolder :: "folder_id \<Rightarrow> drive_file \<Rightarrow> bool" where
  "inFolder folderId f =
     (interpolateId folderId \<in> set (parents f) \<and> mimeType f = ''application/pdf'' \<and>
      \<not> trashed f)"

definition listFiles :: "sweep_env \<Rightarrow> folder_id \<Rightarrow> drive_state \<Rightarrow> drive_file list" where
  "listFiles env folderId d =
     take (page_size env)
       (sort_key (\<lambda>f. - createdTime f) (filter (inFolder folderId) (drive_files d)))"

text \<open>\<open>files.delete\<close> by id, when it does not reject.\<close>

definition deleteFile :: "string \<Rightarrow> drive_state \<Rightarrow> drive_state" where
  "deleteFile fileId d = d\<lparr>drive_files := filter (\<lambda>g. file_id g \<noteq> fileId) (drive_files d)\<rparr>"

text \<open>The \<open>for\<close> loop over the listed files (lines 287 to 298); a rejected delete throws.\<close>

fun deleteLoop ::
  "sweep_env \<Rightarrow> int \<Rightarrow> drive_file list \<Rightarrow> drive_state \<Rightarrow> unit completion \<times> drive_state" where
  "deleteLoop env threshold [] d = (Returned (), d)"
| "deleteLoop env threshold (file # files) d =
     (if createdTime file < threshold then
        (let d1 = d\<lparr>delete_calls := delete_calls d @ [file_id file]\<rparr> in
         case files_delete_error env (file_id file) of
           Some msg \<Rightarrow> (Threw msg, d1)
         | None \<Rightarrow> deleteLoop env threshold files (deleteFile (file_id file) d1))
      else deleteLoop env threshold files d)"

text \<open>\<open>deleteOldFiles\<close>: one \<open>try\<close> around the listing and the loop; its \<open>catch\<close> logs.\<close>

definition deleteOldFiles :: "sweep_env \<Rightarrow> folder_id \<Rightarrow> drive_state \<Rightarrow> unit completion \<times> drive_state" where
  "deleteOldFiles env folderId d =
     (case files_list_error env of
        Some msg \<Rightarrow> (Returned (), d)
      | None \<Rightarrow>
          (case deleteLoop env (oneWeekAgo env) (listFiles env folderId d) d of
             (Threw msg, d1) \<Rightarrow> (Returned (), d1)
           | (ProcessExit code, d1) \<Rightarrow> (ProcessExit code, d1)
           | (Returned u, d1) \<Rightarrow> (Returned (), d1)))"

text \<open>
  A document the sweep is to delete, in the words of the specification: a PDF file of
  the folder, not in the bin, created strictly before now minus 7 days.
\<close>

definition aged :: "sweep_env \<Rightarrow> folder_id \<Rightarrow> drive_file \<Rightarrow> bool" where
  "aged env folderId f = (inFolder folderId f \<and> createdTime f < currentDate env - 7 * msPerDay)"

section \<open>Credentials\<close>

text \<open>
  A token object is a JSON object: a partial map from field names to values. The token
  file is absent, holds text \<open>JSON.parse\<close> rejects, or holds an object.
\<close>

type_synonym token = "string \<rightharpoonup> string"

datatype json_file = Unparsable | Json token

datatype auth_event = RefreshAttempt | OperatorPrompt | CodeExchange string | TokenFileWrite

record auth_world =
  token_json :: "json_file option"
  auth_trace :: "auth_event list"

text \<open>
  The OAuth2 client: the credentials set on it and the listeners registered for its
  \<open>tokens\<close> event. A listener gets the event's token object and what \<open>writeFileSync\<close>
  does when it is called (\<open>None\<close>: it writes).
\<close>

type_synonym listener = "token \<Rightarrow> string option \<Rightarrow> auth_world \<Rightarrow> auth_world"

record oauth_client =
  credentials :: token
  listeners :: "listener list"

datatype credentials_file = NoCredentialsFile | BadCredentials string | Installed string string string

record auth_env =
  CREDENTIALS_PATH :: string
  client_secret_json :: credentials_file
  refresh_error :: "string option"
  operator_code :: string
  getToken :: "string \<Rightarrow> string + token"
  token_write_error :: "string option"

text \<open>\<open>!value\<close> for a field of a token object: missing or the empty text.\<close>

definition falsy :: "string option \<Rightarrow> bool" where
  "falsy v = (v = None \<or> v = Some [])"

text \<open>Object spread \<open>{ ...a, ...b }\<close>: the fields of both, those of \<open>b\<close> winning.\<close>

definition spread :: "token \<Rightarrow> token \<Rightarrow> token" where
  "spread a b = a ++ b"

text \<open>The listener registered after the stored token was loaded (lines 62 to 70).\<close>

definition tokensListenerLoaded :: "token \<Rightarrow> listener" where
  "tokensListenerLoaded token tokens write_error aw =
     (let updatedToken = spread token tokens;
          aw1 = aw\<lparr>auth_trace := auth_trace aw @ [TokenFileWrite]\<rparr> in
      case write_error of
        Some msg \<Rightarrow> aw1
      | None \<Rightarrow> aw1\<lparr>token_json := Some (Json updatedToken)\<rparr>)"

text \<open>The listener registered after manual authentication (lines 112 to 120).\<close>

definition tokensListenerManual :: listener where
  "tokensListenerManual tokens write_error aw =
     (let updatedToken = spread Map.empty tokens;
          aw1 = aw\<lparr>auth_trace := auth_trace aw @ [TokenFileWrite]\<rparr> in
      case write_error of
        Some msg \<Rightarrow> aw1
      | None \<Rightarrow> aw1\<lparr>token_json := Some (Json updatedToken)\<rparr>)"

text \<open>The client emits \<open>tokens\<close>: every registered listener runs.\<close>

definition emitTokens :: "oauth_client \<Rightarrow> token \<Rightarrow> string option \<Rightarrow> auth_world \<Rightarrow> auth_world" where
  "emitTokens client tokens write_error aw =
     fold (\<lambda>l. l tokens write_error) (listeners client) aw"

text \<open>
  Lines 35 to 72, the statements inside \<open>try { ... } catch (tokenErr)\<close>: load the stored
  token, refresh it, register the listener.
\<close>

definition loadStoredToken ::
  "auth_env \<Rightarrow> oauth_client \<Rightarrow> json_file \<Rightarrow> auth_world \<Rightarrow> oauth_client completion \<times> auth_world" where
  "loadStoredToken env client file aw =
     (case file of
        Unparsable \<Rightarrow> (Threw ''Unexpected token in JSON'', aw)
      | Json token \<Rightarrow>
          if falsy (token ''refresh_token'') then (Threw ''Missing refresh_token'', aw)
          else
            (let aw1 = aw\<lparr>auth_trace := auth_trace aw @ [RefreshAttempt]\<rparr> in
             case refresh_error env of
               Some msg \<Rightarrow>
                 if str_includes msg ''invalid_grant''
                 then (Threw ''Invalid refresh_token. Please re-authenticate manually.'', aw1)
                 else (Threw msg, aw1)
             | None \<Rightarrow>
                 (Returned (client\<lparr>credentials := token,
                                    listeners := listeners client @ [tokensListenerLoaded token]\<rparr>),
                  aw1)))"

text \<open>Lines 79 to 122: the authorization-code exchange with the operator.\<close>

definition manualAuthentication ::
  "auth_env \<Rightarrow> oauth_client \<Rightarrow> auth_world \<Rightarrow> oauth_client completion \<times> auth_world" where
  "manualAuthentication env client aw =
     (let code = operator_code env;
          aw1 = aw\<lparr>auth_trace := auth_trace aw @ [OperatorPrompt, CodeExchange code]\<rparr> in
      case getToken env code of
        Inl msg \<Rightarrow> (Threw msg, aw1)
      | Inr tokens \<Rightarrow>
          if falsy (tokens ''refresh_token'') then
            (Threw (''No refresh_token received. Ensure 'access_type=offline' '' @
                    ''and 'prompt=consent' in auth URL.''), aw1)
          else
            (let aw2 = aw1\<lparr>auth_trace := auth_trace aw1 @ [TokenFileWrite]\<rparr> in
             case token_write_error env of
               Some msg \<Rightarrow> (Threw msg, aw2)
             | None \<Rightarrow>
                 (Returned (client\<lparr>credentials := tokens,
                                    listeners := listeners client @ [tokensListenerManual]\<rparr>),
                  aw2\<lparr>token_json := Some (Json tokens)\<rparr>)))"

text \<open>
  \<open>authorize\<close>. The outer \<open>catch\<close> logs and throws again. What is thrown while the
  stored token is loaded is caught by \<open>catch (tokenErr)\<close>, which logs; control then
  reaches the manual authentication below it.
\<close>

definition authorize :: "auth_env \<Rightarrow> auth_world \<Rightarrow> oauth_client completion \<times> auth_world" where
  "authorize env aw =
     (case client_secret_json env of
        NoCredentialsFile \<Rightarrow>
          (Threw (''Credentials file not found at '' @ CREDENTIALS_PATH env @
                  ''. Please download from Google Cloud Console.''), aw)
      | BadCredentials msg \<Rightarrow> (Threw msg, aw)
      | Installed client_secret client_id redirect_uri \<Rightarrow>
          (let oAuth2Client = \<lparr>credentials = Map.empty, listeners = []\<rparr> in
           case token_json aw of
             None \<Rightarrow> manualAuthentication env oAuth2Client aw
           | Some file \<Rightarrow>
               (case loadStoredToken env oAuth2Client file aw of
                  (Returned client, aw1) \<Rightarrow> (Returned client, aw1)
                | (Threw tokenErr, aw1) \<Rightarrow> manualAuthentication env oAuth2Client aw1
                | (ProcessExit code, aw1) \<Rightarrow> (ProcessExit code, aw1))))"

section \<open>Folder resolution and startup\<close>

text \<open>
  What the provider answers to the folder search (by name and parent: a rejection or
  the ids found) and to the folder creation (a rejection or the new id).
\<close>

record folder_env =
  list_folders :: "text16 \<Rightarrow> folder_id \<Rightarrow> string + string list"
  create_folder :: "text16 \<Rightarrow> folder_id \<Rightarrow> string + string"

fun folderLoop :: "folder_env \<Rightarrow> text16 list \<Rightarrow> folder_id \<Rightarrow> folder_id completion" where
  "folderLoop env [] currentParentId = Returned currentParentId"
| "folderLoop env (folderName # folderNames) currentParentId =
     (case list_folders env folderName currentParentId of
        Inl msg \<Rightarrow> Threw msg
      | Inr (folderId # others) \<Rightarrow> folderLoop env folderNames (Some folderId)
      | Inr [] \<Rightarrow>
          (case create_folder env folderName currentParentId of
             Inl msg \<Rightarrow> Threw msg
           | Inr folderId \<Rightarrow> folderLoop env folderNames (Some folderId)))"

definition getOrCreateFolder :: "folder_env \<Rightarrow> text16 \<Rightarrow> folder_id completion" where
  "getOrCreateFolder env folderPath =
     folderLoop env
       (filter (\<lambda>name. trim name \<noteq> []) (split (of_char CHR ''/'') folderPath)) None"

text \<open>
  The start of the main function (lines 306 to 311 and its \<open>catch\<close>): anything thrown by
  \<open>authorize\<close> or \<open>getOrCreateFolder\<close> ends the process with code 1. Registering the two
  timers cannot fail.
\<close>

record startup_env =
  auth_calls :: auth_env
  folder_calls :: folder_env
  FOLDER_PATH :: text16

definition startup ::
  "startup_env \<Rightarrow> auth_world \<Rightarrow> (oauth_client \<times> folder_id) completion \<times> auth_world" where
  "startup env aw =
     (case authorize (auth_calls env) aw of
        (Threw msg, aw1) \<Rightarrow> (ProcessExit 1, aw1)
      | (ProcessExit code, aw1) \<Rightarrow> (ProcessExit code, aw1)
      | (Returned auth, aw1) \<Rightarrow>
          (case getOrCreateFolder (folder_calls env) (FOLDER_PATH env) of
             Threw msg \<Rightarrow> (ProcessExit 1, aw1)
           | ProcessExit code \<Rightarrow> (ProcessExit code, aw1)
           | Returned folderId \<Rightarrow> (Returned (auth, folderId), aw1)))"

section \<open>Examples\<close>

text \<open>
  One pending invoice of an opted-in customer, the answers of a run in which every call
  succeeds (the gateway's reply is a parameter), and the worlds before the first
  connection and after it.
\<close>

definition ex_row :: invoice where
  "ex_row = \<lparr>IDX = 1, CUSTOMERID = ''C001'', MOBILENO = ''94771234567'',
             FILENAME = ''inv1.pdf'', PDFDATA = ''%PDF'', DOWNLOAD = ''F''\<rparr>"

definition ex_profile :: sms_main where
  "ex_profile = \<lparr>CUSTOMER_ID = ''C001'', SMARTINVOICE_ACTIVE = ''T'',
                 SMS_USERNAME = Some (units ''user''), SMS_PASSWORD = Some (units ''pw'')\<rparr>"

definition ex_world :: world where
  "ex_world = \<lparr>pool = True, tb_SMART_INVOICE = [ex_row], tb_SMS_MAIN = [ex_profile],
               tb_SMS_LOG = [], trace = []\<rparr>"

definition ex_world_start :: world where
  "ex_world_start = ex_world\<lparr>pool := False\<rparr>"

definition ex_folder :: folder_id where
  "ex_folder = Some ''folder1''"

definition ex_drive_env :: drive_env where
  "ex_drive_env = \<lparr>files_create = Inr (''f1'', ''https://drive/f1''), permissions_create = None\<rparr>"

definition ex_sms_env :: "string \<Rightarrow> sms_env" where
  "ex_sms_env reply =
     \<lparr>sms_connect = None, profile_query_error = None, querystring_escape = (\<lambda>s. s),
      axios_get = (\<lambda>url. Inr (Text (units reply))), log_insert_error = None\<rparr>"

definition ex_row_env :: "string \<Rightarrow> row_env" where
  "ex_row_env reply =
     \<lparr>drive_calls = ex_drive_env, update_error = None, sms_calls = ex_sms_env reply\<rparr>"

definition ex_tick_env :: "string \<Rightarrow> tick_env" where
  "ex_tick_env reply =
     \<lparr>tick_connect = None, pending_query_error = None, row_calls = (\<lambda>r. ex_row_env reply)\<rparr>"

text \<open>The database server cannot be reached.\<close>

definition ex_tick_env_db_down :: tick_env where
  "ex_tick_env_db_down = (ex_tick_env ''OK:1'')\<lparr>tick_connect := Some ''ECONNREFUSED''\<rparr>"

text \<open>The customer of the example row has not opted in.\<close>

definition ex_world_inactive :: world where
  "ex_world_inactive = ex_world\<lparr>tb_SMS_MAIN := [ex_profile\<lparr>SMARTINVOICE_ACTIVE := ''F''\<rparr>]\<rparr>"

text \<open>The query for pending rows is rejected.\<close>

definition ex_tick_env_query_fails :: tick_env where
  "ex_tick_env_query_fails = (ex_tick_env ''OK:1'')\<lparr>pending_query_error := Some ''timeout''\<rparr>"

text \<open>The upload of the example row is rejected.\<close>

definition ex_row_env_upload_fails :: row_env where
  "ex_row_env_upload_fails =
     (ex_row_env ''OK:1'')\<lparr>drive_calls := ex_drive_env\<lparr>files_create := Inl ''quota''\<rparr>\<rparr>"

text \<open>
  A stored token, the token object of a later refresh (it has no \<open>refresh_token\<close>), and
  the answers of an authorization in which every call succeeds.
\<close>

definition ex_tokens :: token where
  "ex_tokens = [''access_token'' \<mapsto> ''a1'', ''refresh_token'' \<mapsto> ''r1'']"

definition ex_refreshed :: token where
  "ex_refreshed = [''access_token'' \<mapsto> ''a2'', ''expiry_date'' \<mapsto> ''1700000000000'']"

definition ex_auth_env :: auth_env where
  "ex_auth_env =
     \<lparr>CREDENTIALS_PATH = ''credentials.json'',
      client_secret_json = Installed ''secret'' ''id'' ''http://localhost'',
      refresh_error = None, operator_code = ''4/abc'',
      getToken = (\<lambda>code. Inr ex_tokens), token_write_error = None\<rparr>"

definition ex_auth_env_invalid_grant :: auth_env where
  "ex_auth_env_invalid_grant = ex_auth_env\<lparr>refresh_error := Some ''invalid_grant''\<rparr>"

definition ex_no_token_file :: auth_world where
  "ex_no_token_file = \<lparr>token_json = None, auth_trace = []\<rparr>"

definition ex_token_file :: auth_world where
  "ex_token_file = \<lparr>token_json = Some (Json ex_tokens), auth_trace = []\<rparr>"

definition ex_new_client :: oauth_client where
  "ex_new_client = \<lparr>credentials = Map.empty, listeners = []\<rparr>"

definition ex_folder_env :: folder_env where
  "ex_folder_env = \<lparr>list_folders = (\<lambda>name parent. Inr []),
                    create_folder = (\<lambda>name parent. Inr ''folder1'')\<rparr>"

definition ex_startup_env :: startup_env where
  "ex_startup_env =
     \<lparr>auth_calls = ex_auth_env, folder_calls = ex_folder_env,
      FOLDER_PATH = units ''SmartInvoices''\<rparr>"

text \<open>The storage provider rejects the folder search.\<close>

definition ex_startup_env_drive_down :: startup_env where
  "ex_startup_env_drive_down =
     ex_startup_env\<lparr>folder_calls := ex_folder_env\<lparr>list_folders := (\<lambda>name parent. Inl ''ENOTFOUND'')\<rparr>\<rparr>"

text \<open>
  A folder on day 10 with four PDF files created on days 1, 2, 3 and 9, on a host
  whose clock is always five and a half hours ahead of UTC; the threshold is day 3, so
  the files of days 1 and 2 are aged and the file created exactly on the threshold is
  not.
\<close>

definition ex_file :: "string \<Rightarrow> int \<Rightarrow> drive_file" where
  "ex_file name day =
     \<lparr>file_id = name, file_name = name @ ''.pdf'', createdTime = day * msPerDay,
      parents = [''folder1''], mimeType = ''application/pdf'', trashed = False\<rparr>"

definition ex_drive :: drive_state where
  "ex_drive = \<lparr>drive_files = [ex_file ''b'' 1, ex_file ''c'' 9, ex_file ''a'' 2, ex_file ''e'' 3],
               delete_calls = []\<rparr>"

definition ex_sweep_env :: sweep_env where
  "ex_sweep_env =
     \<lparr>currentDate = 10 * msPerDay, localTZA_utc = (\<lambda>t. 19800000),
      localTZA_local = (\<lambda>t. 19800000), page_size = 100, files_list_error = None,
      files_delete_error = (\<lambda>fileId. None)\<rparr>"

text \<open>The provider rejects the deletion of the file \<open>a\<close>.\<close>

definition ex_sweep_env_a_fails :: sweep_env where
  "ex_sweep_env_a_fails =
     ex_sweep_env\<lparr>files_delete_error := (\<lambda>fileId. if fileId = ''a'' then Some ''forbidden'' else None)\<rparr>"





section \<open>Properties of the regular expressions\<close>

lemma regex_digits: "regex_test (replicate n Digit) s = (length s = n \<and> list_all isDigit s)"
  by (induction n arbitrary: s) (case_tac s; auto)+

lemma regex_local_iff: "regex_test re_local s = localForm s"
  by (cases s) (auto simp: re_local_def localForm_def regex_digits)

lemma regex_international_iff: "regex_test re_international s = internationalForm s"
  apply (cases s; simp add: re_international_def internationalForm_def regex_digits)
  subgoal for c cs by (cases cs) (auto simp: regex_digits)
  done


lemma customerPhone_local: "customerPhone raw = Some phone \<Longrightarrow> localForm phone"
  by (auto simp: customerPhone_def regex_local_iff regex_international_iff slice_def
      internationalForm_def localForm_def split: if_splits)

section \<open>Properties of the database calls and the notification\<close>

lemma emit_simps [simp]:
  "trace (emit e w) = trace w @ [e]"
  "pool (emit e w) = pool w"
  "tb_SMART_INVOICE (emit e w) = tb_SMART_INVOICE w"
  "tb_SMS_MAIN (emit e w) = tb_SMS_MAIN w"
  "tb_SMS_LOG (emit e w) = tb_SMS_LOG w"
  by (simp_all add: emit_def)

lemma updateDownload_simps [simp]:
  "trace (updateDownload i w) = trace w"
  "pool (updateDownload i w) = pool w"
  "tb_SMS_MAIN (updateDownload i w) = tb_SMS_MAIN w"
  "tb_SMS_LOG (updateDownload i w) = tb_SMS_LOG w"
  by (simp_all add: updateDownload_def)

lemma connect_trace:
  "trace (snd (connectToDatabase m w)) = trace w @ (if pool w then [] else [MssqlConnect])"
  by (simp add: connectToDatabase_def split: option.splits)

lemma connect_frame:
  "tb_SMART_INVOICE (snd (connectToDatabase m w)) = tb_SMART_INVOICE w"
  "tb_SMS_MAIN (snd (connectToDatabase m w)) = tb_SMS_MAIN w"
  "tb_SMS_LOG (snd (connectToDatabase m w)) = tb_SMS_LOG w"
  by (simp_all add: connectToDatabase_def split: option.splits)

lemma connect_pool: "pool w \<Longrightarrow> connectToDatabase m w = (Returned (), w)"
  by (simp add: connectToDatabase_def)

lemma connect_result:
  "fst (connectToDatabase m w) = (if pool w \<or> m = None then Returned () else ProcessExit 1)"
  by (simp add: connectToDatabase_def split: option.splits)

lemma connect_returned_pool:
  "connectToDatabase m w = (Returned u, w1) \<Longrightarrow> pool w1"
  by (auto simp: connectToDatabase_def split: option.splits if_splits)

lemma gatewaySend_frame:
  "tb_SMART_INVOICE (gatewaySend env pr p c l w) = tb_SMART_INVOICE w"
  "tb_SMS_MAIN (gatewaySend env pr p c l w) = tb_SMS_MAIN w"
  "pool (gatewaySend env pr p c l w) = pool w"
  by (simp_all add: gatewaySend_def Let_def split: sum.splits list.splits option.splits response_data.splits)

lemma gatewaySend_trace:
  "\<exists>es. trace (gatewaySend env pr p c l w) = trace w @ es \<and> list_all callsLocalPhone es"
  by (simp add: gatewaySend_def Let_def split: sum.splits list.splits option.splits response_data.splits)

lemma sendSMS_frame:
  "tb_SMART_INVOICE (snd (sendSMS env p c l w)) = tb_SMART_INVOICE w"
  "tb_SMS_MAIN (snd (sendSMS env p c l w)) = tb_SMS_MAIN w"
  by (auto simp: sendSMS_def Let_def connectToDatabase_def gatewaySend_frame
      split: prod.splits completion.splits option.splits list.splits if_splits)

lemma sendSMS_not_threw: "fst (sendSMS env p c l w) \<noteq> Threw m"
  by (auto simp: sendSMS_def Let_def
      split: prod.splits completion.splits option.splits list.splits if_splits)

lemma sendSMS_pool:
  "pool w \<Longrightarrow> fst (sendSMS env p c l w) = Returned () \<and> pool (snd (sendSMS env p c l w))"
  by (auto simp: sendSMS_def Let_def connect_pool gatewaySend_frame
      split: prod.splits completion.splits option.splits list.splits if_splits)

lemma sendSMS_trace:
  "\<exists>es. trace (snd (sendSMS env p c l w)) = trace w @ CallSendSMS p c l # es \<and>
        list_all callsLocalPhone es"
proof -
  obtain r w1 where conn: "connectToDatabase (sms_connect env) (emit (CallSendSMS p c l) w) = (r, w1)"
    by force
  have t1: "trace w1 = trace w @ CallSendSMS p c l # (if pool w then [] else [MssqlConnect])"
    using connect_trace [of "sms_connect env" "emit (CallSendSMS p c l) w"] conn by simp
  have g: "\<And>pr. \<exists>es. trace (gatewaySend env pr p c l (emit (QueryProfile c) w1)) =
      trace w @ CallSendSMS p c l # es \<and> list_all callsLocalPhone es"
    using gatewaySend_trace [of env _ p c l "emit (QueryProfile c) w1"] t1 by fastforce
  show ?thesis
    using t1 g
    by (cases r) (auto simp: sendSMS_def conn Let_def split: option.splits list.splits)
qed

section \<open>Properties of the loop body\<close>

lemma upload_frame:
  "tb_SMART_INVOICE (snd (uploadToDrive env b n f w)) = tb_SMART_INVOICE w"
  "tb_SMS_MAIN (snd (uploadToDrive env b n f w)) = tb_SMS_MAIN w"
  "tb_SMS_LOG (snd (uploadToDrive env b n f w)) = tb_SMS_LOG w"
  "pool (snd (uploadToDrive env b n f w)) = pool w"
  by (simp_all add: uploadToDrive_def Let_def split: sum.splits prod.splits option.splits)

lemma upload_not_exit: "fst (uploadToDrive env b n f w) \<noteq> ProcessExit code"
  by (simp add: uploadToDrive_def Let_def split: sum.splits prod.splits option.splits)

lemma upload_trace:
  "\<exists>es. trace (snd (uploadToDrive env b n f w)) = trace w @ es \<and>
     list_all callsLocalPhone es \<and> list_all (\<lambda>e. \<not> isGatewayCall e) es"
  by (simp add: uploadToDrive_def Let_def split: sum.splits prod.splits option.splits)

lemma upload_trace_calls:
  "\<exists>es. trace (snd (uploadToDrive env b n f w)) = trace w @ DriveFilesCreate n b f # es \<and>
     list_all (\<lambda>e. \<not> isUpload e) es"
  by (simp add: uploadToDrive_def Let_def split: sum.splits prod.splits option.splits)

lemma sendSMS_no_upload:
  "\<exists>es. trace (snd (sendSMS env p c l w)) = trace w @ es \<and> list_all (\<lambda>e. \<not> isUpload e) es"
proof -
  obtain r w1 where conn: "connectToDatabase (sms_connect env) (emit (CallSendSMS p c l) w) = (r, w1)"
    by force
  have t1: "trace w1 = trace w @ CallSendSMS p c l # (if pool w then [] else [MssqlConnect])"
    using connect_trace [of "sms_connect env" "emit (CallSendSMS p c l) w"] conn by simp
  have g: "\<exists>es. trace (gatewaySend env pr p c l (emit (QueryProfile c) w1)) =
      trace w @ es \<and> list_all (\<lambda>e. \<not> isUpload e) es" for pr
    using t1
    by (simp add: gatewaySend_def Let_def
        split: sum.splits list.splits option.splits response_data.splits)
  show ?thesis
    using t1 g
    by (cases r) (auto simp: sendSMS_def conn Let_def split: option.splits list.splits)
qed

subsection \<open>The invoice table under the program's updates\<close>

lemma applyUpdates_simps [simp]:
  "applyUpdates [] w = w"
  "applyUpdates (i # idxs) w = applyUpdates idxs (updateDownload i w)"
  "applyUpdates (idxs @ idxs') w = applyUpdates idxs' (applyUpdates idxs w)"
  by (simp_all add: applyUpdates_def)

lemma updateDownload_table:
  "tb_SMART_INVOICE (updateDownload i w) =
     map (\<lambda>r. if IDX r = i then r\<lparr>DOWNLOAD := ''T''\<rparr> else r) (tb_SMART_INVOICE w)"
  by (simp add: updateDownload_def)

lemma applyUpdates_cong:
  "tb_SMART_INVOICE w' = tb_SMART_INVOICE w \<Longrightarrow>
   tb_SMART_INVOICE (applyUpdates idxs w') = tb_SMART_INVOICE (applyUpdates idxs w)"
proof (induction idxs arbitrary: w w')
  case Nil
  then show ?case by simp
next
  case (Cons i idxs)
  have "tb_SMART_INVOICE (updateDownload i w') = tb_SMART_INVOICE (updateDownload i w)"
    using Cons.prems by (simp add: updateDownload_table)
  from Cons.IH [OF this] show ?case by simp
qed

lemma laterTable_refl: "tb_SMART_INVOICE w' = tb_SMART_INVOICE w \<Longrightarrow> laterTable w w'"
  unfolding laterTable_def by (rule exI [of _ "[]"]) simp

lemma laterTable_update:
  "tb_SMART_INVOICE w' = tb_SMART_INVOICE (updateDownload i w) \<Longrightarrow> laterTable w w'"
  unfolding laterTable_def by (rule exI [of _ "[i]"]) simp

lemma laterTable_trans:
  assumes "laterTable w w'" and "laterTable w' w''"
  shows "laterTable w w''"
proof -
  obtain xs where xs: "tb_SMART_INVOICE w' = tb_SMART_INVOICE (applyUpdates xs w)"
    using assms(1) by (auto simp: laterTable_def)
  obtain ys where ys: "tb_SMART_INVOICE w'' = tb_SMART_INVOICE (applyUpdates ys w')"
    using assms(2) by (auto simp: laterTable_def)
  have "tb_SMART_INVOICE w'' = tb_SMART_INVOICE (applyUpdates (xs @ ys) w)"
    using ys applyUpdates_cong [OF xs, of ys] by simp
  then show ?thesis unfolding laterTable_def by blast
qed

lemma laterTable_induct [consumes 1, case_names same update]:
  assumes "laterTable w w'"
    and "\<And>w w'. tb_SMART_INVOICE w' = tb_SMART_INVOICE w \<Longrightarrow> P w w'"
    and "\<And>w w' i. P (updateDownload i w) w' \<Longrightarrow> P w w'"
  shows "P w w'"
proof -
  obtain idxs where "tb_SMART_INVOICE w' = tb_SMART_INVOICE (applyUpdates idxs w)"
    using assms(1) by (auto simp: laterTable_def)
  then show ?thesis
  proof (induction idxs arbitrary: w)
    case Nil
    then show ?case using assms(2) by simp
  next
    case (Cons i idxs)
    then have "P (updateDownload i w) w'" by simp
    then show ?case by (rule assms(3))
  qed
qed

lemma update_keeps_uploaded_row:
  "r \<in> set (tb_SMART_INVOICE w) \<Longrightarrow> DOWNLOAD r = ''T'' \<Longrightarrow>
   r \<in> set (tb_SMART_INVOICE (updateDownload i w))"
proof -
  assume r: "r \<in> set (tb_SMART_INVOICE w)" "DOWNLOAD r = ''T''"
  have "(if IDX r = i then r\<lparr>DOWNLOAD := ''T''\<rparr> else r) = r" using r(2) by simp
  then show ?thesis using r(1) unfolding updateDownload_table set_map by force
qed

lemma later_keeps_uploaded_row:
  "laterTable w w' \<Longrightarrow> r \<in> set (tb_SMART_INVOICE w) \<Longrightarrow> DOWNLOAD r = ''T'' \<Longrightarrow>
   r \<in> set (tb_SMART_INVOICE w')"
proof (induction rule: laterTable_induct)
  case (same w w')
  then show ?case by simp
next
  case (update w w' i)
  show ?case
    using update.IH [OF update_keeps_uploaded_row [OF update.prems] update.prems(2)] .
qed

lemma set_T_ex:
  "list_ex (\<lambda>r. IDX r = i) xs \<Longrightarrow>
   list_ex (\<lambda>r. IDX r = i) (map (\<lambda>r. if IDX r = j then r\<lparr>DOWNLOAD := ''T''\<rparr> else r) xs)"
  by (induction xs) auto

lemma set_T_mono:
  "list_all (\<lambda>r. IDX r = i \<longrightarrow> DOWNLOAD r = ''T'') xs \<Longrightarrow>
   list_all (\<lambda>r. IDX r = i \<longrightarrow> DOWNLOAD r = ''T'')
     (map (\<lambda>r. if IDX r = j then r\<lparr>DOWNLOAD := ''T''\<rparr> else r) xs)"
  by (induction xs) simp_all

lemma set_T_all:
  "list_all (\<lambda>r. IDX r = i \<longrightarrow> DOWNLOAD r = ''T'')
     (map (\<lambda>r. if IDX r = i then r\<lparr>DOWNLOAD := ''T''\<rparr> else r) xs)"
  by (induction xs) simp_all

lemma set_T_pending:
  "set (filter (\<lambda>r. DOWNLOAD r = ''F'')
          (map (\<lambda>r. if IDX r = j then r\<lparr>DOWNLOAD := ''T''\<rparr> else r) xs)) \<subseteq>
   set (filter (\<lambda>r. DOWNLOAD r = ''F'') xs)"
  by (induction xs) auto

lemma update_isUploaded:
  "isUploaded i w \<Longrightarrow> isUploaded i (updateDownload j w)"
  by (simp add: isUploaded_def updateDownload_table set_T_ex set_T_mono)

lemma later_isUploaded: "laterTable w w' \<Longrightarrow> isUploaded i w \<Longrightarrow> isUploaded i w'"
proof (induction rule: laterTable_induct)
  case (same w w')
  then show ?case by (simp add: isUploaded_def)
next
  case (update w w' j)
  then show ?case using update_isUploaded [of i w j] by blast
qed

lemma update_pending: "set (selectPending (updateDownload i w)) \<subseteq> set (selectPending w)"
  unfolding selectPending_def updateDownload_table by (rule set_T_pending)

lemma later_pending: "laterTable w w' \<Longrightarrow> set (selectPending w') \<subseteq> set (selectPending w)"
proof (induction rule: laterTable_induct)
  case (same w w')
  then show ?case by (simp add: selectPending_def)
next
  case (update w w' i)
  then show ?case using update_pending [of i w] by blast
qed

lemma update_present:
  "row \<in> set (tb_SMART_INVOICE w) \<or> uploadedRow row \<in> set (tb_SMART_INVOICE w) \<Longrightarrow>
   row \<in> set (tb_SMART_INVOICE (updateDownload i w)) \<or>
   uploadedRow row \<in> set (tb_SMART_INVOICE (updateDownload i w))"
proof (erule disjE)
  assume "row \<in> set (tb_SMART_INVOICE w)"
  then have "(if IDX row = i then row\<lparr>DOWNLOAD := ''T''\<rparr> else row)
      \<in> set (tb_SMART_INVOICE (updateDownload i w))"
    unfolding updateDownload_table set_map by (rule imageI)
  then show ?thesis by (auto simp: uploadedRow_def split: if_splits)
next
  assume "uploadedRow row \<in> set (tb_SMART_INVOICE w)"
  then show ?thesis using update_keeps_uploaded_row [of "uploadedRow row" w i]
    by (simp add: uploadedRow_def)
qed

lemma later_present:
  "laterTable w w' \<Longrightarrow>
   row \<in> set (tb_SMART_INVOICE w) \<or> uploadedRow row \<in> set (tb_SMART_INVOICE w) \<Longrightarrow>
   row \<in> set (tb_SMART_INVOICE w') \<or> uploadedRow row \<in> set (tb_SMART_INVOICE w')"
proof (induction rule: laterTable_induct)
  case (same w w')
  then show ?case by simp
next
  case (update w w' i)
  show ?case
    using update.IH update_present [OF update.prems] by blast
qed

lemma update_uploads_row:
  assumes "row \<in> set (tb_SMART_INVOICE w) \<or> uploadedRow row \<in> set (tb_SMART_INVOICE w)"
  shows "uploadedRow row \<in> set (tb_SMART_INVOICE (updateDownload (IDX row) w))"
    and "isUploaded (IDX row) (updateDownload (IDX row) w)"
proof -
  show m: "uploadedRow row \<in> set (tb_SMART_INVOICE (updateDownload (IDX row) w))"
    using assms
  proof
    assume "row \<in> set (tb_SMART_INVOICE w)"
    then have "(if IDX row = IDX row then row\<lparr>DOWNLOAD := ''T''\<rparr> else row)
        \<in> set (tb_SMART_INVOICE (updateDownload (IDX row) w))"
      unfolding updateDownload_table set_map by (rule imageI)
    then show ?thesis by (simp add: uploadedRow_def)
  next
    assume "uploadedRow row \<in> set (tb_SMART_INVOICE w)"
    then show ?thesis using update_keeps_uploaded_row [of "uploadedRow row" w "IDX row"]
      by (simp add: uploadedRow_def)
  qed
  have "IDX (uploadedRow row) = IDX row" by (simp add: uploadedRow_def)
  then have "list_ex (\<lambda>r. IDX r = IDX row) (tb_SMART_INVOICE (updateDownload (IDX row) w))"
    using m unfolding list_ex_iff by blast
  moreover have "list_all (\<lambda>r. IDX r = IDX row \<longrightarrow> DOWNLOAD r = ''T'')
      (tb_SMART_INVOICE (updateDownload (IDX row) w))"
    by (simp add: updateDownload_table set_T_all)
  ultimately show "isUploaded (IDX row) (updateDownload (IDX row) w)"
    by (simp add: isUploaded_def)
qed

lemma uploaded_not_pending:
  "isUploaded i w \<Longrightarrow> \<forall>r\<in>set (selectPending w). IDX r \<noteq> i"
  by (auto simp: isUploaded_def selectPending_def list_all_iff)

lemma rowBody_cases [case_names skipped upload_failed update_failed notified]:
  obtains
    "customerPhone (MOBILENO row) = None" "rowBody env f row w = (Returned (), w)"
  | phone msg w1 where "customerPhone (MOBILENO row) = Some phone"
      "uploadToDrive (drive_calls env) (PDFDATA row) (FILENAME row) f w = (Threw msg, w1)"
      "rowBody env f row w = (Threw msg, w1)"
  | phone link w1 msg where "customerPhone (MOBILENO row) = Some phone"
      "uploadToDrive (drive_calls env) (PDFDATA row) (FILENAME row) f w = (Returned link, w1)"
      "update_error env = Some msg"
      "rowBody env f row w = (Threw msg, emit (QueryUpdateDownload (IDX row)) w1)"
  | phone link w1 where "customerPhone (MOBILENO row) = Some phone"
      "uploadToDrive (drive_calls env) (PDFDATA row) (FILENAME row) f w = (Returned link, w1)"
      "update_error env = None"
      "rowBody env f row w =
         sendSMS (sms_calls env) phone (CUSTOMERID row) link
           (updateDownload (IDX row) (emit (QueryUpdateDownload (IDX row)) w1))"
proof (cases "customerPhone (MOBILENO row)")
  case None
  then show ?thesis using that(1) by (simp add: rowBody_def)
next
  case (Some phone)
  obtain r w1 where up: "uploadToDrive (drive_calls env) (PDFDATA row) (FILENAME row) f w = (r, w1)"
    by force
  show ?thesis
  proof (cases r)
    case (Returned link)
    then show ?thesis
      using Some up that(3) [of phone link w1] that(4) [of phone link w1]
      by (cases "update_error env") (simp_all add: rowBody_def Let_def)
  next
    case (Threw msg)
    then show ?thesis using Some up that(2) by (simp add: rowBody_def)
  next
    case (ProcessExit code)
    then show ?thesis using up upload_not_exit [of "drive_calls env" "PDFDATA row" "FILENAME row" f w code]
      by simp
  qed
qed

lemma upload_eq:
  assumes "uploadToDrive env b n f w = (r, w1)"
  shows "tb_SMART_INVOICE w1 = tb_SMART_INVOICE w" "tb_SMS_MAIN w1 = tb_SMS_MAIN w"
    "tb_SMS_LOG w1 = tb_SMS_LOG w" "pool w1 = pool w"
  using upload_frame [of env b n f w] assms by simp_all

lemma rowBody_pool:
  assumes "pool w"
  shows "pool (snd (rowBody env f row w)) \<and> fst (rowBody env f row w) \<noteq> ProcessExit code"
  using assms
  by (cases rule: rowBody_cases [of row env f w]) (simp_all add: sendSMS_pool upload_eq)

lemma rowBody_later: "laterTable w (snd (rowBody env f row w))"
proof (cases rule: rowBody_cases [of row env f w])
  case (notified phone link w1)
  let ?w2 = "updateDownload (IDX row) (emit (QueryUpdateDownload (IDX row)) w1)"
  have "tb_SMART_INVOICE ?w2 = tb_SMART_INVOICE (updateDownload (IDX row) w)"
    using upload_eq(1) [OF notified(2)] by (simp add: updateDownload_table)
  then show ?thesis using notified(4) by (intro laterTable_update) (simp add: sendSMS_frame)
qed (simp_all add: laterTable_refl upload_eq)

section \<open>Properties of the row loop and the tick\<close>

lemma processRow_snd: "snd (processRow env f row w) = snd (rowBody env f row w)"
  by (simp add: processRow_def split: prod.splits completion.splits)

lemma processRow_pool:
  assumes "pool w"
  shows "fst (processRow env f row w) = Returned ()" "pool (snd (processRow env f row w))"
proof -
  obtain r w1 where rb: "rowBody env f row w = (r, w1)" by force
  have "pool w1" "\<And>code. r \<noteq> ProcessExit code"
    using rowBody_pool [OF assms, of env f row] rb by simp_all
  then show "fst (processRow env f row w) = Returned ()" "pool (snd (processRow env f row w))"
    using rb by (cases r; simp add: processRow_def)+
qed

lemma rowBody_trace:
  "\<exists>es. trace (snd (rowBody env f row w)) = trace w @ es \<and> list_all callsLocalPhone es"
proof (cases rule: rowBody_cases [of row env f w])
  case skipped
  then show ?thesis by simp
next
  case (upload_failed phone msg w1)
  then show ?thesis
    using upload_trace [of "drive_calls env" "PDFDATA row" "FILENAME row" f w] by auto
next
  case (update_failed phone link w1 msg)
  then show ?thesis
    using upload_trace [of "drive_calls env" "PDFDATA row" "FILENAME row" f w] by auto
next
  case (notified phone link w1)
  let ?w2 = "updateDownload (IDX row) (emit (QueryUpdateDownload (IDX row)) w1)"
  obtain es1 where e1: "trace w1 = trace w @ es1" "list_all callsLocalPhone es1"
    using upload_trace [of "drive_calls env" "PDFDATA row" "FILENAME row" f w] notified(2) by auto
  obtain es2 where e2: "trace (snd (sendSMS (sms_calls env) phone (CUSTOMERID row) link ?w2)) =
      trace ?w2 @ CallSendSMS phone (CUSTOMERID row) link # es2" "list_all callsLocalPhone es2"
    using sendSMS_trace by blast
  have "localForm phone" using notified(1) by (rule customerPhone_local)
  then show ?thesis using e1 e2 notified(4) by simp
qed

lemma processRows_pool:
  "pool w \<Longrightarrow> fst (processRows envs f rows w) = Returned () \<and> pool (snd (processRows envs f rows w))"
proof (induction rows arbitrary: w)
  case Nil
  then show ?case by simp
next
  case (Cons row rows)
  obtain r w1 where pr: "processRow (envs row) f row w = (r, w1)" by force
  have "r = Returned ()" "pool w1"
    using processRow_pool [OF Cons.prems, of "envs row" f row] pr by simp_all
  then show ?case using Cons.IH [of w1] pr by simp
qed

lemma processRows_step:
  "pool w \<Longrightarrow> processRows envs f (row # rows) w =
     processRows envs f rows (snd (processRow (envs row) f row w))"
  using processRow_pool [of w "envs row" f row]
  by (cases "processRow (envs row) f row w") simp

lemma processRows_trace:
  "pool w \<Longrightarrow> \<exists>es. trace (snd (processRows envs f rows w)) = trace w @ es \<and> list_all callsLocalPhone es"
proof (induction rows arbitrary: w)
  case Nil
  then show ?case by simp
next
  case (Cons row rows)
  let ?w1 = "snd (processRow (envs row) f row w)"
  obtain es1 where e1: "trace ?w1 = trace w @ es1" "list_all callsLocalPhone es1"
    using rowBody_trace [of "envs row" f row w] by (auto simp: processRow_snd)
  have "pool ?w1" using processRow_pool(2) [OF Cons.prems] .
  from Cons.IH [OF this] obtain es2 where
    e2: "trace (snd (processRows envs f rows ?w1)) = trace ?w1 @ es2" "list_all callsLocalPhone es2"
    by blast
  show ?case unfolding processRows_step [OF Cons.prems] using e1 e2 by simp
qed

lemma pollTick_trace:
  "\<exists>es. trace (snd (pollTick env f w)) = trace w @ es \<and> list_all callsLocalPhone es"
proof -
  obtain r w1 where conn: "connectToDatabase (tick_connect env) w = (r, w1)" by force
  have t1: "trace w1 = trace w @ (if pool w then [] else [MssqlConnect])"
    using connect_trace [of "tick_connect env" w] conn by simp
  show ?thesis
  proof (cases r)
    case (Returned u)
    then have p: "pool (emit QueryPending w1)" using connect_returned_pool conn by simp
    obtain es where es: "trace (snd (processRows (row_calls env) f
        (selectPending (emit QueryPending w1)) (emit QueryPending w1))) =
        trace (emit QueryPending w1) @ es" "list_all callsLocalPhone es"
      using processRows_trace [OF p] by blast
    show ?thesis
      using Returned conn t1 es
      by (auto simp: pollTick_def Let_def split: option.splits prod.splits completion.splits)
  next
    case (Threw m)
    then show ?thesis using conn t1 by (simp add: pollTick_def)
  next
    case (ProcessExit c)
    then show ?thesis using conn t1 by (simp add: pollTick_def)
  qed
qed

lemma processRows_later: "laterTable w (snd (processRows envs f rows w))"
proof (induction rows arbitrary: w)
  case Nil
  show ?case by (simp add: laterTable_refl)
next
  case (Cons row rows)
  obtain r w1 where pr: "processRow (envs row) f row w = (r, w1)" by force
  have l1: "laterTable w w1"
    using rowBody_later [of w "envs row" f row] pr processRow_snd [of "envs row" f row w] by simp
  have "laterTable w1 (snd (processRows envs f rows w1))" by (rule Cons.IH)
  then have "laterTable w (snd (processRows envs f rows w1))" using l1 laterTable_trans by blast
  then show ?case using pr l1 by (cases r) simp_all
qed

lemma pollTick_later: "laterTable w (snd (pollTick env f w))"
proof -
  obtain r w1 where conn: "connectToDatabase (tick_connect env) w = (r, w1)" by force
  have t1: "tb_SMART_INVOICE w1 = tb_SMART_INVOICE w"
    using connect_frame(1) [of "tick_connect env" w] conn by simp
  then have l1: "laterTable w w1" "laterTable w (emit QueryPending w1)"
    by (simp_all add: laterTable_refl)
  have "laterTable (emit QueryPending w1)
      (snd (processRows (row_calls env) f (selectPending (emit QueryPending w1)) (emit QueryPending w1)))"
    by (rule processRows_later)
  then have l2: "laterTable w
      (snd (processRows (row_calls env) f (selectPending (emit QueryPending w1)) (emit QueryPending w1)))"
    using l1(2) laterTable_trans by blast
  show ?thesis
    using conn l1 l2
    by (cases r) (auto simp: pollTick_def Let_def split: option.splits prod.splits completion.splits)
qed

subsection \<open>The upload calls of the loop\<close>

lemma rowBody_upload_calls:
  "\<exists>es. trace (snd (rowBody env f row w)) = trace w @ es \<and>
     list_all (\<lambda>e. isUpload e \<longrightarrow> e = uploadOf f row) es"
proof -
  obtain es1 where e1:
    "trace (snd (uploadToDrive (drive_calls env) (PDFDATA row) (FILENAME row) f w)) =
       trace w @ uploadOf f row # es1" "list_all (\<lambda>e. \<not> isUpload e) es1"
    using upload_trace_calls [of "drive_calls env" "PDFDATA row" "FILENAME row" f w]
    by (auto simp: uploadOf_def)
  have no: "list_all (\<lambda>e. isUpload e \<longrightarrow> e = uploadOf f row) es" if "list_all (\<lambda>e. \<not> isUpload e) es" for es
    using that by (simp add: list_all_iff)
  show ?thesis
  proof (cases rule: rowBody_cases [of row env f w])
    case skipped
    then show ?thesis by simp
  next
    case (upload_failed phone msg w1)
    then show ?thesis using e1 no [OF e1(2)] by simp
  next
    case (update_failed phone link w1 msg)
    then show ?thesis using e1 no [OF e1(2)] by simp
  next
    case (notified phone link w1)
    let ?w2 = "updateDownload (IDX row) (emit (QueryUpdateDownload (IDX row)) w1)"
    obtain es2 where e2: "trace (snd (sendSMS (sms_calls env) phone (CUSTOMERID row) link ?w2)) =
        trace ?w2 @ es2" "list_all (\<lambda>e. \<not> isUpload e) es2"
      using sendSMS_no_upload by blast
    show ?thesis using e1 no [OF e1(2)] e2 no [OF e2(2)] notified(2,4) by simp
  qed
qed

lemma processRows_upload_calls:
  "\<exists>es. trace (snd (processRows envs f rows w)) = trace w @ es \<and>
     list_all (\<lambda>e. isUpload e \<longrightarrow> e \<in> uploadOf f ` set rows) es"
proof (induction rows arbitrary: w)
  case Nil
  then show ?case by simp
next
  case (Cons row rows)
  obtain r w1 where pr: "processRow (envs row) f row w = (r, w1)" by force
  obtain es1 where e1: "trace w1 = trace w @ es1"
    "list_all (\<lambda>e. isUpload e \<longrightarrow> e = uploadOf f row) es1"
    using rowBody_upload_calls [of "envs row" f row w] pr processRow_snd [of "envs row" f row w]
    by auto
  obtain es2 where e2: "trace (snd (processRows envs f rows w1)) = trace w1 @ es2"
    "list_all (\<lambda>e. isUpload e \<longrightarrow> e \<in> uploadOf f ` set rows) es2"
    using Cons.IH [of w1] by blast
  have a1: "list_all (\<lambda>e. isUpload e \<longrightarrow> e \<in> uploadOf f ` set (row # rows)) es1"
    using e1(2) by (auto simp: list_all_iff)
  have a2: "list_all (\<lambda>e. isUpload e \<longrightarrow> e \<in> uploadOf f ` set (row # rows)) es2"
    using e2(2) by (auto simp: list_all_iff)
  show ?case
  proof (cases r)
    case (Returned u)
    then show ?thesis using pr e1(1) e2(1) a1 a2 by (intro exI [of _ "es1 @ es2"]) simp
  next
    case (Threw msg)
    then show ?thesis using pr e1(1) a1 by (intro exI [of _ es1]) simp
  next
    case (ProcessExit code)
    then show ?thesis using pr e1(1) a1 by (intro exI [of _ es1]) simp
  qed
qed

lemma pollTick_upload_calls:
  "list_all (\<lambda>e. isUpload e \<longrightarrow> e \<in> uploadOf f ` set (selectPending w))
     (since w (snd (pollTick env f w)))"
proof -
  obtain r w1 where conn: "connectToDatabase (tick_connect env) w = (r, w1)" by force
  have t1: "trace w1 = trace w @ (if pool w then [] else [MssqlConnect])"
    using connect_trace [of "tick_connect env" w] conn by simp
  have sel: "selectPending (emit QueryPending w1) = selectPending w"
    using connect_frame(1) [of "tick_connect env" w] conn by (simp add: selectPending_def)
  obtain es where es: "trace (snd (processRows (row_calls env) f (selectPending w)
      (emit QueryPending w1))) = trace (emit QueryPending w1) @ es"
    "list_all (\<lambda>e. isUpload e \<longrightarrow> e \<in> uploadOf f ` set (selectPending w)) es"
    using processRows_upload_calls by blast
  show ?thesis
    using conn t1 sel es
    by (cases r)
       (auto simp: pollTick_def Let_def since_def split: option.splits prod.splits completion.splits)
qed

section \<open>Evaluation of the examples\<close>

lemmas ex_defs = ex_row_def ex_profile_def ex_world_def ex_world_start_def ex_folder_def
  ex_drive_env_def ex_sms_env_def ex_row_env_def ex_tick_env_def ex_tick_env_db_down_def

lemmas run_defs = pollTick_def connectToDatabase_def emit_def selectPending_def
    processRow_def rowBody_def customerPhone_def re_international_def re_local_def regex_digits isDigit_def
    Let_def uploadToDrive_def slice_def updateDownload_def sendSMS_def gatewaySend_def smsUrl_def
    trim_def isWhiteSpace_def interpolate_def units_def logRecord_def since_def

section \<open>Phone validation\<close>

lemma customerPhone_international:
  "length ds = 9 \<Longrightarrow> list_all isDigit ds \<Longrightarrow> customerPhone (''94'' @ ds) = Some (''0'' @ ds)"
  by (simp add: customerPhone_def re_international_def regex_digits slice_def)

lemma customerPhone_local_form:
  "length ds = 9 \<Longrightarrow> list_all isDigit ds \<Longrightarrow> customerPhone (''0'' @ ds) = Some (''0'' @ ds)"
  by (simp add: customerPhone_def re_international_def re_local_def regex_digits)

lemma customerPhone_other:
  "\<not> internationalForm raw \<Longrightarrow> \<not> localForm raw \<Longrightarrow> customerPhone raw = None"
  by (simp add: customerPhone_def regex_international_iff regex_local_iff)

text \<open>
  Claim C2. A raw number made of 94 and nine digits is rewritten to 0 and the same nine
  digits (94771234567 becomes 0771234567); one made of 0 and nine digits is kept as it
  is. Any other raw number makes the loop body leave at once: the world is the same
  afterwards (the row keeps its \<open>DOWNLOAD\<close>, no upload and no notification call is made)
  and the loop goes on with the next row.
\<close>

theorem C2_phone_normalization:
  "(length ds = 9 \<and> list_all isDigit ds \<longrightarrow>
      customerPhone (''94'' @ ds) = Some (''0'' @ ds) \<and>
      customerPhone (''0'' @ ds) = Some (''0'' @ ds)) \<and>
   (\<not> internationalForm (MOBILENO row) \<and> \<not> localForm (MOBILENO row) \<longrightarrow>
      customerPhone (MOBILENO row) = None \<and>
      processRow env folderId row w = (Returned (), w) \<and>
      processRows envs folderId (row # rest) w = processRows envs folderId rest w)"
proof -
  have "processRow env folderId row w = (Returned (), w)"
    if "customerPhone (MOBILENO row) = None" for env
    using that by (simp add: processRow_def rowBody_def)
  then show ?thesis
    using customerPhone_international [of ds] customerPhone_local_form [of ds]
      customerPhone_other [of "MOBILENO row"]
    by simp
qed

text \<open>The three numbers of the specification, and a row with the number 123.\<close>

theorem C2_phone_normalization_witness:
  "customerPhone ''94771234567'' = Some ''0771234567'' \<and>
   customerPhone ''0771234567'' = Some ''0771234567'' \<and>
   customerPhone ''123'' = None \<and>
   processRow (ex_row_env ''OK:1'') ex_folder (ex_row\<lparr>MOBILENO := ''123''\<rparr>) ex_world =
     (Returned (), ex_world) \<and>
   tb_SMART_INVOICE (snd (processRows (\<lambda>r. ex_row_env ''OK:1'') ex_folder
       [ex_row\<lparr>MOBILENO := ''123''\<rparr>] ex_world)) = [ex_row]"
  using C2_phone_normalization [of "''771234567''" "ex_row\<lparr>MOBILENO := ''123''\<rparr>"
      "ex_row_env ''OK:1''" ex_folder ex_world "\<lambda>r. ex_row_env ''OK:1''" "[]"]
  by (simp add: isDigit_def internationalForm_def localForm_def ex_world_def)

text \<open>
  Claim C10. Every call of \<open>sendSMS\<close> made during a tick passes a phone number in local
  form: the character 0 followed by exactly nine digits.
\<close>

theorem C10_notified_phone_is_local:
  "\<forall>phone customerID link.
     CallSendSMS phone customerID link \<in> set (since w (snd (pollTick env folderId w))) \<longrightarrow>
     (\<exists>ds. phone = CHR ''0'' # ds \<and> length ds = 9 \<and> list_all isDigit ds)"
proof (intro allI impI)
  fix phone customerID link
  assume "CallSendSMS phone customerID link \<in> set (since w (snd (pollTick env folderId w)))"
  moreover have "list_all callsLocalPhone (since w (snd (pollTick env folderId w)))"
    using pollTick_trace [of env folderId w] by (auto simp: since_def)
  ultimately have "callsLocalPhone (CallSendSMS phone customerID link)"
    by (auto simp: list_all_iff)
  then show "\<exists>ds. phone = CHR ''0'' # ds \<and> length ds = 9 \<and> list_all isDigit ds"
    by (simp add: localForm_def)
qed

text \<open>A tick that notifies the customer of the example row.\<close>

theorem C10_notified_phone_is_local_witness:
  "CallSendSMS ''0771234567'' ''C001'' ''https://drive/f1'' \<in>
     set (since ex_world_start (snd (pollTick (ex_tick_env ''OK:12345'') ex_folder ex_world_start))) \<and>
   (\<exists>ds. ''0771234567'' = CHR ''0'' # ds \<and> length ds = 9 \<and> list_all isDigit ds)"
proof -
  have mem: "CallSendSMS ''0771234567'' ''C001'' ''https://drive/f1'' \<in>
     set (since ex_world_start (snd (pollTick (ex_tick_env ''OK:12345'') ex_folder ex_world_start)))"
    by (simp add: ex_defs run_defs)
  show ?thesis
    using mem C10_notified_phone_is_local [rule_format, OF mem] by simp
qed

section \<open>Upload before notification\<close>

text \<open>
  Claim C1. Take a row of the invoice table with a valid phone number whose upload
  succeeds. The next call is the \<open>UPDATE\<close> of that row's \<open>IDX\<close>. If the database accepts
  it, the table is the old one with \<open>DOWNLOAD\<close> set to \<open>T\<close> on the rows of that \<open>IDX\<close>: the
  row is in it with \<open>DOWNLOAD\<close> \<open>T\<close>. Only then is \<open>sendSMS\<close> called. Whatever the
  notification does (the answers of the outside are arbitrary) it throws nothing to
  the loop body and leaves the invoice table as it is, and the processing of the row
  has made exactly one upload call. From then on, in every world whose invoice table
  comes from that one by updates of the program (however ticks interleave), the row is
  still there with \<open>DOWNLOAD\<close> \<open>T\<close>, no pending row carries its \<open>IDX\<close>, and a tick
  started there again leaves such a table and makes upload calls only for pending
  rows of another \<open>IDX\<close>. If the database rejects the \<open>UPDATE\<close>, the loop body ends
  there: no notification is attempted.
\<close>

theorem C1_uploaded_before_notification:
  assumes "row \<in> set (tb_SMART_INVOICE w)"
    and "customerPhone (MOBILENO row) = Some phone"
    and "uploadToDrive (drive_calls env) (PDFDATA row) (FILENAME row) folderId w = (Returned link, w1)"
  shows
    "(update_error env = None \<longrightarrow>
        (let w2 = updateDownload (IDX row) (emit (QueryUpdateDownload (IDX row)) w1);
             w3 = snd (sendSMS (sms_calls env) phone (CUSTOMERID row) link w2)
         in snd (processRow env folderId row w) = w3 \<and>
            tb_SMART_INVOICE w2 =
              map (\<lambda>r. if IDX r = IDX row then r\<lparr>DOWNLOAD := ''T''\<rparr> else r) (tb_SMART_INVOICE w) \<and>
            row\<lparr>DOWNLOAD := ''T''\<rparr> \<in> set (tb_SMART_INVOICE w2) \<and>
            (\<forall>r\<in>set (tb_SMART_INVOICE w2). IDX r = IDX row \<longrightarrow> DOWNLOAD r = ''T'') \<and>
            (\<exists>es. trace w3 =
               trace w1 @ QueryUpdateDownload (IDX row) # CallSendSMS phone (CUSTOMERID row) link # es) \<and>
            filter isUpload (since w w3) = [DriveFilesCreate (FILENAME row) (PDFDATA row) folderId] \<and>
            (\<forall>msg. fst (sendSMS (sms_calls env) phone (CUSTOMERID row) link w2) \<noteq> Threw msg) \<and>
            tb_SMART_INVOICE w3 = tb_SMART_INVOICE w2 \<and>
            (\<forall>w'. laterTable w3 w' \<longrightarrow>
               row\<lparr>DOWNLOAD := ''T''\<rparr> \<in> set (tb_SMART_INVOICE w') \<and>
               (\<forall>r\<in>set (tb_SMART_INVOICE w'). IDX r = IDX row \<longrightarrow> DOWNLOAD r = ''T'') \<and>
               (\<forall>r\<in>set (selectPending w'). IDX r \<noteq> IDX row) \<and>
               (\<forall>tenv f. laterTable w' (snd (pollTick tenv f w')) \<and>
                  (\<forall>e\<in>set (since w' (snd (pollTick tenv f w'))). isUpload e \<longrightarrow>
                     (\<exists>r\<in>set (selectPending w'). IDX r \<noteq> IDX row \<and> e = uploadOf f r)))))) \<and>
     (update_error env \<noteq> None \<longrightarrow>
        snd (processRow env folderId row w) = emit (QueryUpdateDownload (IDX row)) w1)"
proof -
  let ?w2 = "updateDownload (IDX row) (emit (QueryUpdateDownload (IDX row)) w1)"
  let ?w3 = "snd (sendSMS (sms_calls env) phone (CUSTOMERID row) link ?w2)"
  have failed: "snd (processRow env folderId row w) = emit (QueryUpdateDownload (IDX row)) w1"
    if "update_error env \<noteq> None"
    using that assms by (auto simp: processRow_def rowBody_def Let_def)
  have body: "snd (processRow env folderId row w) = ?w3" if "update_error env = None"
    using that assms by (simp add: processRow_snd rowBody_def Let_def)
  have t1: "tb_SMART_INVOICE w1 = tb_SMART_INVOICE w" using upload_eq(1) [OF assms(3)] .
  have table: "tb_SMART_INVOICE ?w2 =
      map (\<lambda>r. if IDX r = IDX row then r\<lparr>DOWNLOAD := ''T''\<rparr> else r) (tb_SMART_INVOICE w)"
    using t1 by (simp add: updateDownload_table)
  have t2: "tb_SMART_INVOICE ?w2 = tb_SMART_INVOICE (updateDownload (IDX row) w)"
    using table by (simp add: updateDownload_table)
  have "uploadedRow row \<in> set (tb_SMART_INVOICE (updateDownload (IDX row) w))"
    "isUploaded (IDX row) (updateDownload (IDX row) w)"
    using update_uploads_row [of row w] assms(1) by simp_all
  then have mem2: "uploadedRow row \<in> set (tb_SMART_INVOICE ?w2)" and up2: "isUploaded (IDX row) ?w2"
    using t2 by (simp_all add: isUploaded_def)
  have frame: "tb_SMART_INVOICE ?w3 = tb_SMART_INVOICE ?w2" by (rule sendSMS_frame)
  have mem3: "uploadedRow row \<in> set (tb_SMART_INVOICE ?w3)" and up3: "isUploaded (IDX row) ?w3"
    using mem2 up2 frame by (simp_all add: isUploaded_def)
  have order: "\<exists>es. trace ?w3 =
      trace w1 @ QueryUpdateDownload (IDX row) # CallSendSMS phone (CUSTOMERID row) link # es"
    using sendSMS_trace [of "sms_calls env" phone "CUSTOMERID row" link ?w2] by auto
  obtain es1 where e1: "trace w1 = trace w @ DriveFilesCreate (FILENAME row) (PDFDATA row) folderId # es1"
    "list_all (\<lambda>e. \<not> isUpload e) es1"
    using upload_trace_calls [of "drive_calls env" "PDFDATA row" "FILENAME row" folderId w] assms(3)
    by auto
  obtain es2 where e2: "trace ?w3 = trace ?w2 @ es2" "list_all (\<lambda>e. \<not> isUpload e) es2"
    using sendSMS_no_upload by blast
  have "filter isUpload es1 = []" "filter isUpload es2 = []"
    using e1(2) e2(2) by (simp_all add: filter_empty_conv list_all_iff)
  then have once: "filter isUpload (since w ?w3) =
      [DriveFilesCreate (FILENAME row) (PDFDATA row) folderId]"
    using e1(1) e2(1) by (simp add: since_def)
  have caught: "\<forall>msg. fst (sendSMS (sms_calls env) phone (CUSTOMERID row) link ?w2) \<noteq> Threw msg"
    by (simp add: sendSMS_not_threw)
  have later: "uploadedRow row \<in> set (tb_SMART_INVOICE w') \<and>
      (\<forall>r\<in>set (tb_SMART_INVOICE w'). IDX r = IDX row \<longrightarrow> DOWNLOAD r = ''T'') \<and>
      (\<forall>r\<in>set (selectPending w'). IDX r \<noteq> IDX row) \<and>
      (\<forall>tenv f. laterTable w' (snd (pollTick tenv f w')) \<and>
         (\<forall>e\<in>set (since w' (snd (pollTick tenv f w'))). isUpload e \<longrightarrow>
            (\<exists>r\<in>set (selectPending w'). IDX r \<noteq> IDX row \<and> e = uploadOf f r)))"
    if l: "laterTable ?w3 w'" for w'
  proof -
    have m: "uploadedRow row \<in> set (tb_SMART_INVOICE w')"
      using later_keeps_uploaded_row [OF l mem3] by (simp add: uploadedRow_def)
    have u: "isUploaded (IDX row) w'" using later_isUploaded [OF l up3] .
    then have allT: "\<forall>r\<in>set (tb_SMART_INVOICE w'). IDX r = IDX row \<longrightarrow> DOWNLOAD r = ''T''"
      by (simp add: isUploaded_def list_all_iff)
    have np: "\<forall>r\<in>set (selectPending w'). IDX r \<noteq> IDX row"
      using u by (rule uploaded_not_pending)
    have "\<exists>r\<in>set (selectPending w'). IDX r \<noteq> IDX row \<and> e = uploadOf f r"
      if "e \<in> set (since w' (snd (pollTick tenv f w')))" "isUpload e" for tenv f e
    proof -
      have "e \<in> uploadOf f ` set (selectPending w')"
        using pollTick_upload_calls [of f w' tenv] that by (auto simp: list_all_iff)
      then show ?thesis using np by auto
    qed
    then show ?thesis using m allT np pollTick_later by blast
  qed
  have allT2: "\<forall>r\<in>set (tb_SMART_INVOICE ?w2). IDX r = IDX row \<longrightarrow> DOWNLOAD r = ''T''"
    using up2 by (simp add: isUploaded_def list_all_iff)
  show ?thesis
    unfolding Let_def
    using failed body table mem2 allT2 order once caught frame later
    unfolding uploadedRow_def by blast
qed

text \<open>The example row when the gateway rejects the message, and a tick started afterwards.\<close>

theorem C1_uploaded_before_notification_witness:
  "customerPhone (MOBILENO ex_row) = Some ''0771234567'' \<and>
   tb_SMART_INVOICE (snd (processRow (ex_row_env ''FAILED:quota'') ex_folder ex_row ex_world)) =
     [ex_row\<lparr>DOWNLOAD := ''T''\<rparr>] \<and>
   filter isUpload (since ex_world
       (snd (processRow (ex_row_env ''FAILED:quota'') ex_folder ex_row ex_world))) =
     [DriveFilesCreate ''inv1.pdf'' ''%PDF'' ex_folder] \<and>
   tb_SMS_LOG (snd (processRow (ex_row_env ''FAILED:quota'') ex_folder ex_row ex_world)) = [] \<and>
   selectPending (snd (processRow (ex_row_env ''FAILED:quota'') ex_folder ex_row ex_world)) = [] \<and>
   filter isUpload (since (snd (processRow (ex_row_env ''FAILED:quota'') ex_folder ex_row ex_world))
       (snd (pollTick (ex_tick_env ''OK:1'') ex_folder
          (snd (processRow (ex_row_env ''FAILED:quota'') ex_folder ex_row ex_world))))) = []"
proof -
  have row: "ex_row \<in> set (tb_SMART_INVOICE ex_world)" by (simp add: ex_world_def)
  have phone: "customerPhone (MOBILENO ex_row) = Some ''0771234567''"
    by (simp add: ex_defs run_defs)
  have upload: "uploadToDrive (drive_calls (ex_row_env ''FAILED:quota'')) (PDFDATA ex_row)
      (FILENAME ex_row) ex_folder ex_world =
      (Returned ''https://drive/f1'',
       ex_world\<lparr>trace := [DriveFilesCreate ''inv1.pdf'' ''%PDF'' (Some ''folder1''),
                           DrivePermissionsCreate ''f1'']\<rparr>)"
    by (simp add: ex_defs run_defs)
  have ok: "update_error (ex_row_env ''FAILED:quota'') = None" by (simp add: ex_defs)
  have log: "tb_SMS_LOG (snd (processRow (ex_row_env ''FAILED:quota'') ex_folder ex_row ex_world)) = []"
    by (simp add: ex_defs run_defs)
  have sel: "selectPending (snd (processRow (ex_row_env ''FAILED:quota'') ex_folder ex_row ex_world)) = []"
    by (simp add: ex_defs run_defs)
  have next_tick: "filter isUpload
      (since (snd (processRow (ex_row_env ''FAILED:quota'') ex_folder ex_row ex_world))
       (snd (pollTick (ex_tick_env ''OK:1'') ex_folder
          (snd (processRow (ex_row_env ''FAILED:quota'') ex_folder ex_row ex_world))))) = []"
    by (simp add: ex_defs run_defs)
  have table: "map (\<lambda>r. if IDX r = IDX ex_row then r\<lparr>DOWNLOAD := ''T''\<rparr> else r)
      (tb_SMART_INVOICE ex_world) = [ex_row\<lparr>DOWNLOAD := ''T''\<rparr>]"
    by (simp add: ex_world_def)
  have ex: "DriveFilesCreate (FILENAME ex_row) (PDFDATA ex_row) ex_folder =
      DriveFilesCreate ''inv1.pdf'' ''%PDF'' ex_folder"
    by (simp add: ex_row_def)
  show ?thesis
    using C1_uploaded_before_notification [OF row phone upload] ok phone log sel next_tick table ex
    by (simp add: Let_def)
qed

section \<open>Suppressed notifications\<close>

lemma upload_ok:
  "files_create env = Inr (fid, link) \<Longrightarrow> permissions_create env = None \<Longrightarrow>
   uploadToDrive env b n f w =
     (Returned link, emit (DrivePermissionsCreate fid) (emit (DriveFilesCreate n b f) w))"
  by (simp add: uploadToDrive_def)

lemma sendSMS_suppressed:
  assumes "suppressed c w"
  shows "list_all (\<lambda>e. \<not> isGatewayCall e) (since w (snd (sendSMS env p c l w)))"
    and "tb_SMS_LOG (snd (sendSMS env p c l w)) = tb_SMS_LOG w"
proof -
  obtain r w1 where conn: "connectToDatabase (sms_connect env) (emit (CallSendSMS p c l) w) = (r, w1)"
    by force
  have t1: "trace w1 = trace w @ CallSendSMS p c l # (if pool w then [] else [MssqlConnect])"
    using connect_trace [of "sms_connect env" "emit (CallSendSMS p c l) w"] conn by simp
  have f1: "tb_SMS_MAIN w1 = tb_SMS_MAIN w" "tb_SMS_LOG w1 = tb_SMS_LOG w"
    using connect_frame [of "sms_connect env" "emit (CallSendSMS p c l) w"] conn by simp_all
  show "list_all (\<lambda>e. \<not> isGatewayCall e) (since w (snd (sendSMS env p c l w)))"
    using assms t1 f1
    by (cases r) (auto simp: sendSMS_def conn Let_def suppressed_def since_def
        split: option.splits list.splits)
  show "tb_SMS_LOG (snd (sendSMS env p c l w)) = tb_SMS_LOG w"
    using assms t1 f1
    by (cases r) (auto simp: sendSMS_def conn Let_def suppressed_def
        split: option.splits list.splits)
qed

lemma rowBody_suppressed:
  assumes "suppressed (CUSTOMERID row) w"
  shows "list_all (\<lambda>e. \<not> isGatewayCall e) (since w (snd (rowBody env f row w)))"
    and "tb_SMS_LOG (snd (rowBody env f row w)) = tb_SMS_LOG w"
proof -
  obtain es1 where e1: "trace (snd (uploadToDrive (drive_calls env) (PDFDATA row) (FILENAME row) f w)) = trace w @ es1"
    "list_all (\<lambda>e. \<not> isGatewayCall e) es1"
    using upload_trace [of "drive_calls env" "PDFDATA row" "FILENAME row" f w] by blast
  have both: "list_all (\<lambda>e. \<not> isGatewayCall e) (since w (snd (rowBody env f row w))) \<and>
      tb_SMS_LOG (snd (rowBody env f row w)) = tb_SMS_LOG w"
  proof (cases rule: rowBody_cases [of row env f w])
    case skipped
    then show ?thesis by (simp add: since_def)
  next
    case (upload_failed phone msg w1)
    then show ?thesis using e1 upload_eq(3) [OF upload_failed(2)] by (simp add: since_def)
  next
    case (update_failed phone link w1 msg)
    then show ?thesis using e1 upload_eq(3) [OF update_failed(2)] by (simp add: since_def)
  next
    case (notified phone link w1)
    let ?w2 = "updateDownload (IDX row) (emit (QueryUpdateDownload (IDX row)) w1)"
    let ?w3 = "snd (sendSMS (sms_calls env) phone (CUSTOMERID row) link ?w2)"
    have "tb_SMS_MAIN ?w2 = tb_SMS_MAIN w" using upload_eq(2) [OF notified(2)] by simp
    then have sup: "suppressed (CUSTOMERID row) ?w2" using assms by (simp add: suppressed_def)
    have t2: "trace ?w2 = trace w @ es1 @ [QueryUpdateDownload (IDX row)]"
      using e1 notified(2) by simp
    obtain es2 where e2: "trace ?w3 = trace ?w2 @ CallSendSMS phone (CUSTOMERID row) link # es2"
      using sendSMS_trace by blast
    have "list_all (\<lambda>e. \<not> isGatewayCall e) (since ?w2 ?w3)" using sup by (rule sendSMS_suppressed)
    then have "list_all (\<lambda>e. \<not> isGatewayCall e) (CallSendSMS phone (CUSTOMERID row) link # es2)"
      using e2 by (simp add: since_def)
    then have "list_all (\<lambda>e. \<not> isGatewayCall e) (since w ?w3)"
      using e1 e2 t2 by (simp add: since_def)
    moreover have "tb_SMS_LOG ?w3 = tb_SMS_LOG w"
      using sendSMS_suppressed(2) [OF sup] upload_eq(3) [OF notified(2)] by simp
    ultimately show ?thesis using notified(4) by simp
  qed
  then show "list_all (\<lambda>e. \<not> isGatewayCall e) (since w (snd (rowBody env f row w)))"
    and "tb_SMS_LOG (snd (rowBody env f row w)) = tb_SMS_LOG w" by simp_all
qed

lemma processRow_uploads:
  assumes "customerPhone (MOBILENO row) = Some phone"
    and "files_create (drive_calls env) = Inr (fid, link)"
    and "permissions_create (drive_calls env) = None"
    and "update_error env = None"
    and "row \<in> set (tb_SMART_INVOICE w) \<or> uploadedRow row \<in> set (tb_SMART_INVOICE w)"
  shows "uploadedRow row \<in> set (tb_SMART_INVOICE (snd (processRow env f row w)))"
    and "isUploaded (IDX row) (snd (processRow env f row w))"
proof -
  let ?w1 = "emit (DrivePermissionsCreate fid) (emit (DriveFilesCreate (FILENAME row) (PDFDATA row) f) w)"
  let ?w2 = "updateDownload (IDX row) (emit (QueryUpdateDownload (IDX row)) ?w1)"
  have b: "snd (rowBody env f row w) = snd (sendSMS (sms_calls env) phone (CUSTOMERID row) link ?w2)"
    using assms(1,4) upload_ok [OF assms(2,3)] by (simp add: rowBody_def Let_def)
  have t: "tb_SMART_INVOICE ?w2 = tb_SMART_INVOICE (updateDownload (IDX row) w)"
    by (simp add: updateDownload_table)
  have "uploadedRow row \<in> set (tb_SMART_INVOICE (updateDownload (IDX row) w))"
    "isUploaded (IDX row) (updateDownload (IDX row) w)"
    using update_uploads_row [OF assms(5)] by simp_all
  then show "uploadedRow row \<in> set (tb_SMART_INVOICE (snd (processRow env f row w)))"
    and "isUploaded (IDX row) (snd (processRow env f row w))"
    using b t by (simp_all add: processRow_snd isUploaded_def sendSMS_frame)
qed

lemma processRows_uploads:
  assumes "row \<in> set rows"
    and "customerPhone (MOBILENO row) = Some phone"
    and "files_create (drive_calls (envs row)) = Inr (fid, link)"
    and "permissions_create (drive_calls (envs row)) = None"
    and "update_error (envs row) = None"
  shows "pool w \<Longrightarrow>
     row \<in> set (tb_SMART_INVOICE w) \<or> uploadedRow row \<in> set (tb_SMART_INVOICE w) \<Longrightarrow>
     uploadedRow row \<in> set (tb_SMART_INVOICE (snd (processRows envs f rows w))) \<and>
     isUploaded (IDX row) (snd (processRows envs f rows w))"
  using assms(1)
proof (induction rows arbitrary: w)
  case Nil
  then show ?case by simp
next
  case (Cons r rows)
  let ?w1 = "snd (processRow (envs r) f r w)"
  have p1: "pool ?w1" using processRow_pool(2) [OF Cons.prems(1)] .
  have l1: "laterTable w ?w1" using rowBody_later [of w "envs r" f r] by (simp add: processRow_snd)
  show ?case
  proof (cases "r = row")
    case True
    have m: "uploadedRow row \<in> set (tb_SMART_INVOICE ?w1)" and u: "isUploaded (IDX row) ?w1"
      using True processRow_uploads [OF assms(2-5) Cons.prems(2), of f] by simp_all
    have d: "DOWNLOAD (uploadedRow row) = ''T''" by (simp add: uploadedRow_def)
    have l: "laterTable ?w1 (snd (processRows envs f rows ?w1))" by (rule processRows_later)
    show ?thesis
      unfolding processRows_step [OF Cons.prems(1)]
      using later_keeps_uploaded_row [OF l m d] later_isUploaded [OF l u] by simp
  next
    case False
    then have "row \<in> set rows" using Cons.prems(3) by simp
    moreover have "row \<in> set (tb_SMART_INVOICE ?w1) \<or> uploadedRow row \<in> set (tb_SMART_INVOICE ?w1)"
      using later_present [OF l1 Cons.prems(2)] .
    ultimately show ?thesis
      unfolding processRows_step [OF Cons.prems(1)] using Cons.IH [OF p1] by simp
  qed
qed

lemma pollTick_uploads:
  assumes "pool w \<or> tick_connect env = None"
    and "pending_query_error env = None"
    and "row \<in> set (selectPending w)"
    and "customerPhone (MOBILENO row) = Some phone"
    and "files_create (drive_calls (row_calls env row)) = Inr (fid, link)"
    and "permissions_create (drive_calls (row_calls env row)) = None"
    and "update_error (row_calls env row) = None"
  shows "uploadedRow row \<in> set (tb_SMART_INVOICE (snd (pollTick env f w))) \<and>
     isUploaded (IDX row) (snd (pollTick env f w))"
proof -
  obtain r w1 where conn: "connectToDatabase (tick_connect env) w = (r, w1)" by force
  have r: "r = Returned ()" using connect_result [of "tick_connect env" w] conn assms(1) by auto
  have p: "pool (emit QueryPending w1)" using conn r connect_returned_pool by simp
  have tb: "tb_SMART_INVOICE (emit QueryPending w1) = tb_SMART_INVOICE w"
    using connect_frame(1) [of "tick_connect env" w] conn by simp
  have sel: "selectPending (emit QueryPending w1) = selectPending w"
    using tb by (simp add: selectPending_def)
  have present: "row \<in> set (tb_SMART_INVOICE (emit QueryPending w1)) \<or>
      uploadedRow row \<in> set (tb_SMART_INVOICE (emit QueryPending w1))"
    using assms(3) tb by (simp add: selectPending_def)
  have "uploadedRow row \<in> set (tb_SMART_INVOICE
        (snd (processRows (row_calls env) f (selectPending w) (emit QueryPending w1)))) \<and>
      isUploaded (IDX row) (snd (processRows (row_calls env) f (selectPending w) (emit QueryPending w1)))"
    using processRows_uploads [of row "selectPending w" phone "row_calls env" fid link
        "emit QueryPending w1" f] assms(3-7) p present by simp
  then show ?thesis
    using conn r sel assms(2)
    by (auto simp: pollTick_def Let_def split: prod.splits completion.splits)
qed

text \<open>
  Claim C7. Let the customer of a row have no SMS profile, or a first profile whose
  \<open>SMARTINVOICE_ACTIVE\<close> is not \<open>T\<close>. Whenever that row is processed (in any world with
  the same profiles, whatever the outside answers), no HTTP request is sent to the
  gateway, no insert into \<open>tb_SMS_LOG\<close> is issued and the log table is unchanged. If the
  row is pending at the start of a tick that reaches the database, has a valid phone
  number, and its upload and \<open>UPDATE\<close> succeed, then at the end of the tick the row is
  in the invoice table with \<open>DOWNLOAD\<close> \<open>T\<close>, as is every row of its \<open>IDX\<close>.
\<close>

theorem C7_suppressed_notification:
  assumes "suppressed (CUSTOMERID row) w"
  shows
    "(\<forall>renv f wx. tb_SMS_MAIN wx = tb_SMS_MAIN w \<longrightarrow>
        list_all (\<lambda>e. \<not> isGatewayCall e) (since wx (snd (processRow renv f row wx))) \<and>
        tb_SMS_LOG (snd (processRow renv f row wx)) = tb_SMS_LOG wx) \<and>
     ((pool w \<or> tick_connect env = None) \<and> pending_query_error env = None \<and>
      row \<in> set (selectPending w) \<and> customerPhone (MOBILENO row) = Some phone \<and>
      files_create (drive_calls (row_calls env row)) = Inr (fileId, link) \<and>
      permissions_create (drive_calls (row_calls env row)) = None \<and>
      update_error (row_calls env row) = None \<longrightarrow>
        row\<lparr>DOWNLOAD := ''T''\<rparr> \<in> set (tb_SMART_INVOICE (snd (pollTick env folderId w))) \<and>
        (\<forall>r\<in>set (tb_SMART_INVOICE (snd (pollTick env folderId w))).
           IDX r = IDX row \<longrightarrow> DOWNLOAD r = ''T'') \<and>
        isUploaded (IDX row) (snd (pollTick env folderId w)))"
proof -
  have "list_all (\<lambda>e. \<not> isGatewayCall e) (since wx (snd (processRow renv f row wx))) \<and>
        tb_SMS_LOG (snd (processRow renv f row wx)) = tb_SMS_LOG wx"
    if "tb_SMS_MAIN wx = tb_SMS_MAIN w" for renv f wx
  proof -
    have "suppressed (CUSTOMERID row) wx" using assms that by (simp add: suppressed_def)
    then show ?thesis using rowBody_suppressed [of row wx renv f] by (simp add: processRow_snd)
  qed
  moreover have "uploadedRow row \<in> set (tb_SMART_INVOICE (snd (pollTick env folderId w))) \<and>
      (\<forall>r\<in>set (tb_SMART_INVOICE (snd (pollTick env folderId w))).
         IDX r = IDX row \<longrightarrow> DOWNLOAD r = ''T'') \<and>
      isUploaded (IDX row) (snd (pollTick env folderId w))"
    if "pool w \<or> tick_connect env = None" "pending_query_error env = None"
      "row \<in> set (selectPending w)" "customerPhone (MOBILENO row) = Some phone"
      "files_create (drive_calls (row_calls env row)) = Inr (fileId, link)"
      "permissions_create (drive_calls (row_calls env row)) = None"
      "update_error (row_calls env row) = None"
    using pollTick_uploads [OF that, of folderId] by (auto simp: isUploaded_def list_all_iff)
  ultimately show ?thesis unfolding uploadedRow_def by blast
qed

text \<open>The example row when its customer has not opted in.\<close>

theorem C7_suppressed_notification_witness:
  "suppressed (CUSTOMERID ex_row) ex_world_inactive \<and>
   since ex_world_inactive (snd (processRow (ex_row_env ''OK:1'') ex_folder ex_row ex_world_inactive)) =
     [DriveFilesCreate ''inv1.pdf'' ''%PDF'' ex_folder, DrivePermissionsCreate ''f1'',
      QueryUpdateDownload 1, CallSendSMS ''0771234567'' ''C001'' ''https://drive/f1'',
      QueryProfile ''C001''] \<and>
   tb_SMS_LOG (snd (processRow (ex_row_env ''OK:1'') ex_folder ex_row ex_world_inactive)) = [] \<and>
   tb_SMART_INVOICE (snd (pollTick (ex_tick_env ''OK:1'') ex_folder ex_world_inactive)) =
     [ex_row\<lparr>DOWNLOAD := ''T''\<rparr>] \<and>
   isUploaded (IDX ex_row) (snd (pollTick (ex_tick_env ''OK:1'') ex_folder ex_world_inactive))"
proof -
  have tb: "tb_SMART_INVOICE (snd (pollTick (ex_tick_env ''OK:1'') ex_folder ex_world_inactive)) =
     [ex_row\<lparr>DOWNLOAD := ''T''\<rparr>]"
    by (simp add: ex_world_inactive_def ex_defs run_defs)
  have s: "suppressed (CUSTOMERID ex_row) ex_world_inactive"
    by (simp add: suppressed_def ex_world_inactive_def ex_defs)
  have t: "since ex_world_inactive
      (snd (processRow (ex_row_env ''OK:1'') ex_folder ex_row ex_world_inactive)) =
     [DriveFilesCreate ''inv1.pdf'' ''%PDF'' ex_folder, DrivePermissionsCreate ''f1'',
      QueryUpdateDownload 1, CallSendSMS ''0771234567'' ''C001'' ''https://drive/f1'',
      QueryProfile ''C001'']"
    by (simp add: ex_world_inactive_def ex_defs run_defs)
  have a: "pool ex_world_inactive" "pending_query_error (ex_tick_env ''OK:1'') = None"
    "ex_row \<in> set (selectPending ex_world_inactive)"
    "customerPhone (MOBILENO ex_row) = Some ''0771234567''"
    "files_create (drive_calls (row_calls (ex_tick_env ''OK:1'') ex_row)) = Inr (''f1'', ''https://drive/f1'')"
    "permissions_create (drive_calls (row_calls (ex_tick_env ''OK:1'') ex_row)) = None"
    "update_error (row_calls (ex_tick_env ''OK:1'') ex_row) = None"
    "tb_SMS_LOG ex_world_inactive = []"
    by (simp_all add: ex_world_inactive_def ex_defs run_defs)
  show ?thesis
    using C7_suppressed_notification [OF s, of "ex_tick_env ''OK:1''" "''0771234567''" "''f1''"
        "''https://drive/f1''" ex_folder] s t a tb
    by simp
qed

section \<open>The reply of the SMS gateway\<close>

lemma split_nonempty: "split sep s \<noteq> []"
  by (induction s) (auto split: list.splits)

lemma gatewaySend_log:
  "tb_SMS_LOG (gatewaySend env profile phone customerID link w) =
     (case axios_get env (smsUrl env profile phone link) of
        Inr (Text data) \<Rightarrow>
          if trim (hd (split (of_char CHR '':'') (trim data))) = units ''OK'' \<and>
             log_insert_error env = None
          then tb_SMS_LOG w @ [logRecord profile phone customerID link]
          else tb_SMS_LOG w
      | Inr NotText \<Rightarrow> tb_SMS_LOG w
      | Inl msg \<Rightarrow> tb_SMS_LOG w)"
proof (cases "axios_get env (smsUrl env profile phone link)")
  case (Inl msg)
  then show ?thesis by (simp add: gatewaySend_def)
next
  case (Inr answer)
  show ?thesis
  proof (cases answer)
    case NotText
    then show ?thesis using Inr by (simp add: gatewaySend_def)
  next
    case (Text data)
    then show ?thesis
      using Inr split_nonempty [of "of_char CHR '':''" "trim data"]
      by (cases "split (of_char CHR '':'') (trim data)")
         (auto simp: gatewaySend_def Let_def split: option.splits)
  qed
qed

text \<open>
  Claim C6, as amended. With a pool or a successful connection and a profile that has
  opted in: when the gateway's answer is a text, it is trimmed and split at the
  colons, and the first piece, trimmed again, is compared with \<open>OK\<close>. When they are
  equal and the insert is accepted, exactly one record (customer, user name and
  password used, phone, link) is appended to \<open>tb_SMS_LOG\<close>; otherwise, and when the
  request is rejected or the answer is not a text, the log table is unchanged. In
  every case \<open>sendSMS\<close> returns normally: the caller gets no failure.
\<close>

theorem C6_gateway_reply:
  assumes "pool w \<or> sms_connect env = None"
    and "profile_query_error env = None"
    and "filter (\<lambda>p. CUSTOMER_ID p = customerID) (tb_SMS_MAIN w) = profile # others"
    and "SMARTINVOICE_ACTIVE profile = ''T''"
  shows "fst (sendSMS env phone customerID link w) = Returned () \<and>
     tb_SMS_LOG (snd (sendSMS env phone customerID link w)) =
       (case axios_get env (smsUrl env profile phone link) of
          Inr (Text data) \<Rightarrow>
            if trim (hd (split (of_char CHR '':'') (trim data))) = units ''OK'' \<and>
               log_insert_error env = None
            then tb_SMS_LOG w @
              [\<lparr>LOG_CUSTOMER_ID = customerID,
                LOG_SMS_USER = map_option trim (SMS_USERNAME profile),
                LOG_SMS_PASSWORD = map_option trim (SMS_PASSWORD profile),
                LOG_PHONE_NUMBER = phone, LOG_URL = link\<rparr>]
            else tb_SMS_LOG w
        | Inr NotText \<Rightarrow> tb_SMS_LOG w
        | Inl msg \<Rightarrow> tb_SMS_LOG w)"
proof -
  let ?w0 = "emit (CallSendSMS phone customerID link) w"
  obtain r w1 where conn: "connectToDatabase (sms_connect env) ?w0 = (r, w1)" by force
  have r: "r = Returned ()"
    using connect_result [of "sms_connect env" ?w0] conn assms(1) by auto
  have f1: "tb_SMS_MAIN w1 = tb_SMS_MAIN w" "tb_SMS_LOG w1 = tb_SMS_LOG w"
    using connect_frame [of "sms_connect env" ?w0] conn by simp_all
  have "sendSMS env phone customerID link w =
      (Returned (), gatewaySend env profile phone customerID link (emit (QueryProfile customerID) w1))"
    using conn r f1 assms(2-4) by (simp add: sendSMS_def Let_def)
  then show ?thesis
    using gatewaySend_log [of env profile phone customerID link "emit (QueryProfile customerID) w1"] f1
    by (simp add: logRecord_def split: sum.splits response_data.splits)
qed

text \<open>
  The reply \<open>OK:12345\<close> for the example customer, and the same reply behind a no-break
  space (U+00A0).
\<close>

theorem C6_gateway_reply_witness:
  "tb_SMS_LOG (snd (sendSMS (ex_sms_env ''OK:12345'') ''0771234567'' ''C001'' ''https://drive/f1'' ex_world)) =
     [\<lparr>LOG_CUSTOMER_ID = ''C001'', LOG_SMS_USER = Some (units ''user''),
       LOG_SMS_PASSWORD = Some (units ''pw''),
       LOG_PHONE_NUMBER = ''0771234567'', LOG_URL = ''https://drive/f1''\<rparr>] \<and>
   fst (sendSMS (ex_sms_env ''OK:12345'') ''0771234567'' ''C001'' ''https://drive/f1'' ex_world) =
     Returned () \<and>
   tb_SMS_LOG (snd (sendSMS ((ex_sms_env ''-'')\<lparr>axios_get := (\<lambda>url. Inr (Text (160 # units ''OK:12345'')))\<rparr>)
       ''0771234567'' ''C001'' ''https://drive/f1'' ex_world)) =
     [\<lparr>LOG_CUSTOMER_ID = ''C001'', LOG_SMS_USER = Some (units ''user''),
       LOG_SMS_PASSWORD = Some (units ''pw''),
       LOG_PHONE_NUMBER = ''0771234567'', LOG_URL = ''https://drive/f1''\<rparr>]"
proof -
  let ?nbsp = "(ex_sms_env ''-'')\<lparr>axios_get := (\<lambda>url. Inr (Text (160 # units ''OK:12345'')))\<rparr>"
  have a: "pool ex_world \<or> sms_connect (ex_sms_env ''OK:12345'') = None"
    "profile_query_error (ex_sms_env ''OK:12345'') = None"
    "filter (\<lambda>p. CUSTOMER_ID p = ''C001'') (tb_SMS_MAIN ex_world) = ex_profile # []"
    "SMARTINVOICE_ACTIVE ex_profile = ''T''"
    by (simp_all add: ex_defs)
  have b: "pool ex_world \<or> sms_connect ?nbsp = None" "profile_query_error ?nbsp = None"
    by (simp_all add: ex_defs)
  show ?thesis
    using C6_gateway_reply [OF a, of "''0771234567''" "''https://drive/f1''"]
      C6_gateway_reply [OF b a(3,4), of "''0771234567''" "''https://drive/f1''"]
    by (simp add: ex_defs trim_def isWhiteSpace_def units_def)
qed

text \<open>
  Claim C6 as stated fails twice. For the reply \<open>OK :7\<close> the first piece is \<open>OK\<close>
  followed by a space, which is not \<open>OK\<close>, and a log record is persisted all the same.
  For the reply \<open>ERROR:Invalid number\<close> the call completes exactly as it does for
  \<open>OK:12345\<close>: it returns \<open>undefined\<close>, not a failure carrying the detail.
\<close>

theorem C6_gateway_reply_counterexample:
  "hd (split (of_char CHR '':'') (trim (units ''OK :7''))) = units ''OK '' \<and>
   tb_SMS_LOG (snd (sendSMS (ex_sms_env ''OK :7'') ''0771234567'' ''C001'' ''https://drive/f1'' ex_world)) =
     [logRecord ex_profile ''0771234567'' ''C001'' ''https://drive/f1''] \<and>
   fst (sendSMS (ex_sms_env ''ERROR:Invalid number'') ''0771234567'' ''C001'' ''https://drive/f1'' ex_world) =
     Returned () \<and>
   fst (sendSMS (ex_sms_env ''OK:12345'') ''0771234567'' ''C001'' ''https://drive/f1'' ex_world) =
     Returned ()"
  by (simp add: ex_defs run_defs)

section \<open>The retention sweep\<close>

lemmas ex_sweep_defs = ex_file_def ex_drive_def ex_sweep_env_def ex_sweep_env_a_fails_def ex_folder_def
lemmas sweep_defs = deleteOldFiles_def listFiles_def inFolder_def deleteFile_def oneWeekAgo_def
  setDateMinus7_def localTime_def utcTime_def msPerDay_def interpolateId_def aged_def

lemma deleteLoop_stops:
  assumes "files_delete_error env x = Some msg"
  shows "map file_id (filter (\<lambda>f. createdTime f < t) fs) = pre @ x # post \<Longrightarrow>
     \<forall>i\<in>set pre. files_delete_error env i = None \<Longrightarrow>
     deleteLoop env t fs d =
       (Threw msg, \<lparr>drive_files = filter (\<lambda>g. file_id g \<notin> set pre) (drive_files d),
                    delete_calls = delete_calls d @ pre @ [x]\<rparr>)"
proof (induction fs arbitrary: d pre)
  case Nil
  then show ?case by simp
next
  case (Cons f fs)
  show ?case
  proof (cases "createdTime f < t")
    case False
    then show ?thesis using Cons by simp
  next
    case True
    show ?thesis
    proof (cases pre)
      case Nil
      then have "file_id f = x" using Cons.prems(1) True by simp
      then show ?thesis using True Nil assms by simp
    next
      case (Cons p pre')
      then have p: "file_id f = p" "map file_id (filter (\<lambda>f. createdTime f < t) fs) = pre' @ x # post"
        using Cons.prems(1) True by simp_all
      have ok: "files_delete_error env p = None" "\<forall>i\<in>set pre'. files_delete_error env i = None"
        using Cons.prems(2) Cons by simp_all
      show ?thesis
        using True p(1) ok(1) Cons Cons.IH [OF p(2) ok(2)]
        by (simp add: deleteFile_def conj_commute)
    qed
  qed
qed


lemma deleteLoop_bounds:
  "\<exists>ids. set ids \<subseteq> file_id ` {f \<in> set fs. createdTime f < t} \<and>
     drive_files (snd (deleteLoop env t fs d)) = filter (\<lambda>g. file_id g \<notin> set ids) (drive_files d) \<and>
     (\<forall>code. fst (deleteLoop env t fs d) \<noteq> ProcessExit code)"
proof (induction fs arbitrary: d)
  case Nil
  show ?case by (rule exI [of _ "[]"]) simp
next
  case (Cons f fs)
  show ?case
  proof (cases "createdTime f < t")
    case False
    obtain ids where "set ids \<subseteq> file_id ` {f \<in> set fs. createdTime f < t}"
      "drive_files (snd (deleteLoop env t fs d)) = filter (\<lambda>g. file_id g \<notin> set ids) (drive_files d)"
      "\<forall>code. fst (deleteLoop env t fs d) \<noteq> ProcessExit code"
      using Cons.IH [of d] by blast
    then show ?thesis using False by (intro exI [of _ ids]) auto
  next
    case True
    show ?thesis
    proof (cases "files_delete_error env (file_id f)")
      case (Some msg)
      then show ?thesis using True by (intro exI [of _ "[]"]) simp
    next
      case None
      let ?d1 = "deleteFile (file_id f) (d\<lparr>delete_calls := delete_calls d @ [file_id f]\<rparr>)"
      obtain ids where ids: "set ids \<subseteq> file_id ` {f \<in> set fs. createdTime f < t}"
        "drive_files (snd (deleteLoop env t fs ?d1)) = filter (\<lambda>g. file_id g \<notin> set ids) (drive_files ?d1)"
        "\<forall>code. fst (deleteLoop env t fs ?d1) \<noteq> ProcessExit code"
        using Cons.IH [of ?d1] by blast
      have "filter (\<lambda>g. file_id g \<notin> set ids) (drive_files ?d1) =
          filter (\<lambda>g. file_id g \<notin> set (file_id f # ids)) (drive_files d)"
        by (auto simp: deleteFile_def intro: filter_cong)
      then show ?thesis using True None ids by (intro exI [of _ "file_id f # ids"]) auto
    qed
  qed
qed





lemma deleteOldFiles_not_exit: "fst (deleteOldFiles env folderId d) = Returned ()"
  using deleteLoop_bounds [of "listFiles env folderId d" "oneWeekAgo env" env d]
  by (auto simp: deleteOldFiles_def split: option.splits prod.splits completion.splits)






text \<open>
  Claim C5, as amended. The deletions of one sweep are not independent: when the
  provider rejects the deletion of an aged document, the sweep ends there. The
  documents before it in the listing are deleted, the rejected one was the last
  \<open>files.delete\<close> call, the aged documents after it are not attempted, and the sweep
  returns normally (the error is caught and logged).
\<close>

theorem C5_sweep_stops_at_first_failure:
  assumes "files_list_error env = None"
    and "map file_id (filter (\<lambda>f. createdTime f < oneWeekAgo env)
           (listFiles env folderId d)) = before @ fileId # later"
    and "\<forall>i\<in>set before. files_delete_error env i = None"
    and "files_delete_error env fileId = Some msg"
  shows "deleteOldFiles env folderId d =
     (Returned (),
      \<lparr>drive_files = filter (\<lambda>g. file_id g \<notin> set before) (drive_files d),
       delete_calls = delete_calls d @ before @ [fileId]\<rparr>)"
  using deleteLoop_stops [OF assms(4,2,3), of d] assms(1)
  by (simp add: deleteOldFiles_def)

text \<open>The example folder when the deletion of \<open>a\<close> is rejected.\<close>

theorem C5_sweep_stops_at_first_failure_witness:
  "map file_id (filter (\<lambda>f. createdTime f < oneWeekAgo ex_sweep_env_a_fails)
      (listFiles ex_sweep_env_a_fails ex_folder ex_drive)) = [''a'', ''b''] \<and>
   deleteOldFiles ex_sweep_env_a_fails ex_folder ex_drive =
     (Returned (), \<lparr>drive_files = drive_files ex_drive, delete_calls = [''a'']\<rparr>)"
proof -
  have l: "map file_id (filter (\<lambda>f. createdTime f < oneWeekAgo ex_sweep_env_a_fails)
      (listFiles ex_sweep_env_a_fails ex_folder ex_drive)) = [] @ ''a'' # [''b'']"
    by (simp add: ex_sweep_defs sweep_defs)
  have e: "files_list_error ex_sweep_env_a_fails = None"
    "\<forall>i\<in>set []. files_delete_error ex_sweep_env_a_fails i = None"
    "files_delete_error ex_sweep_env_a_fails ''a'' = Some ''forbidden''"
    by (simp_all add: ex_sweep_defs)
  show ?thesis
    using C5_sweep_stops_at_first_failure [OF e(1) l e(2) e(3)] l
    by (simp add: ex_drive_def)
qed

text \<open>
  Claim C5 as stated fails: \<open>a\<close> and \<open>b\<close> are aged, the deletion of \<open>a\<close> is rejected and
  that of \<open>b\<close> would be accepted, yet \<open>files.delete\<close> is called for \<open>a\<close> only and \<open>b\<close> is
  still there after the sweep.
\<close>

theorem C5_independent_deletions_counterexample:
  "aged ex_sweep_env_a_fails ex_folder (ex_file ''a'' 2) \<and>
   aged ex_sweep_env_a_fails ex_folder (ex_file ''b'' 1) \<and>
   files_delete_error ex_sweep_env_a_fails ''b'' = None \<and>
   delete_calls (snd (deleteOldFiles ex_sweep_env_a_fails ex_folder ex_drive)) = [''a''] \<and>
   ex_file ''b'' 1 \<in> set (drive_files (snd (deleteOldFiles ex_sweep_env_a_fails ex_folder ex_drive)))"
  by (simp add: ex_sweep_defs sweep_defs)

section \<open>Credentials\<close>

lemmas ex_auth_defs = ex_tokens_def ex_refreshed_def ex_auth_env_def ex_auth_env_invalid_grant_def
  ex_no_token_file_def ex_token_file_def ex_new_client_def ex_folder_env_def ex_startup_env_def
  ex_startup_env_drive_down_def
lemmas auth_defs = authorize_def manualAuthentication_def loadStoredToken_def falsy_def
  emitTokens_def tokensListenerManual_def tokensListenerLoaded_def spread_def

lemma manualAuthentication_not_exit: "fst (manualAuthentication env client aw) \<noteq> ProcessExit code"
  by (simp add: manualAuthentication_def Let_def split: sum.splits option.splits)

lemma loadStoredToken_not_exit: "fst (loadStoredToken env client file aw) \<noteq> ProcessExit code"
  by (simp add: loadStoredToken_def Let_def split: json_file.splits option.splits)

lemma authorize_not_exit: "fst (authorize env aw) \<noteq> ProcessExit code"
proof (cases "client_secret_json env")
  case (Installed s i u)
  show ?thesis
  proof (cases "token_json aw")
    case None
    then show ?thesis using Installed manualAuthentication_not_exit by (simp add: authorize_def)
  next
    case (Some stored)
    obtain r aw1 where l: "loadStoredToken env \<lparr>credentials = Map.empty, listeners = []\<rparr> stored aw = (r, aw1)"
      by force
    then have "r \<noteq> ProcessExit c" for c
      using loadStoredToken_not_exit [of env "\<lparr>credentials = Map.empty, listeners = []\<rparr>" stored aw c] by simp
    then show ?thesis
      using Installed Some l manualAuthentication_not_exit
      by (cases r) (simp_all add: authorize_def)
  qed
qed (simp_all add: authorize_def)

lemma folderLoop_not_exit: "folderLoop env names parent \<noteq> ProcessExit code"
  by (induction names arbitrary: parent) (auto split: sum.splits list.splits)

lemma getOrCreateFolder_not_exit: "getOrCreateFolder env path \<noteq> ProcessExit code"
  by (simp add: getOrCreateFolder_def folderLoop_not_exit)

lemma loaded_listener_merges:
  "token_json (tokensListenerLoaded token tokens None aw) = Some (Json (token ++ tokens))"
  by (simp add: tokensListenerLoaded_def spread_def)

lemma loaded_path_keeps_fields:
  assumes "loadStoredToken env client (Json token) aw = (Returned c, aw1)"
    and "listeners client = []" and "tokens k = None"
  shows "\<exists>t. token_json (emitTokens c tokens None aw2) = Some (Json t) \<and> t k = token k"
  using assms
  by (auto simp: loadStoredToken_def Let_def emitTokens_def loaded_listener_merges map_add_def
      split: if_splits option.splits)

text \<open>
  Claim C8 fails on the path after manual authentication. With no token file, the
  operator's code is exchanged for a token object with a \<open>refresh_token\<close>, which is
  written to the file, and the listener of lines 112 to 120 is registered. When the
  client later emits a refreshed token object without \<open>refresh_token\<close>, the file holds
  that object alone: the stored \<open>refresh_token\<close> is gone. (The listener of the other
  path merges, see \<open>loaded_path_keeps_fields\<close>.)
\<close>

theorem C8_manual_path_replaces_token_file:
  "fst (authorize ex_auth_env ex_no_token_file) =
     Returned (ex_new_client\<lparr>credentials := ex_tokens, listeners := [tokensListenerManual]\<rparr>) \<and>
   token_json (snd (authorize ex_auth_env ex_no_token_file)) = Some (Json ex_tokens) \<and>
   ex_tokens ''refresh_token'' = Some ''r1'' \<and>
   ex_refreshed ''refresh_token'' = None \<and>
   token_json (emitTokens (ex_new_client\<lparr>credentials := ex_tokens, listeners := [tokensListenerManual]\<rparr>)
                 ex_refreshed None (snd (authorize ex_auth_env ex_no_token_file))) =
     Some (Json ex_refreshed)"
  by (simp add: ex_auth_defs auth_defs)

text \<open>
  Claim C9, as amended. When the token file holds a token with a \<open>refresh_token\<close> and
  the refresh is rejected with a message containing \<open>invalid_grant\<close>, the error thrown
  for it is caught by \<open>catch (tokenErr)\<close> and \<open>authorize\<close> goes on, in the same call,
  with the manual authentication: the operator is prompted for a code, and the result
  of \<open>authorize\<close> is the result of that exchange.
\<close>

theorem C9_invalid_grant_falls_through:
  assumes "client_secret_json env = Installed client_secret client_id redirect_uri"
    and "token_json aw = Some (Json token)"
    and "\<not> falsy (token ''refresh_token'')"
    and "refresh_error env = Some msg"
    and "str_includes msg ''invalid_grant''"
  shows "authorize env aw =
      manualAuthentication env \<lparr>credentials = Map.empty, listeners = []\<rparr>
        (aw\<lparr>auth_trace := auth_trace aw @ [RefreshAttempt]\<rparr>) \<and>
     OperatorPrompt \<in> set (auth_trace (snd (authorize env aw)))"
  using assms
  by (simp add: authorize_def loadStoredToken_def manualAuthentication_def Let_def
      split: sum.splits option.splits)

text \<open>The stored example token when the refresh answers \<open>invalid_grant\<close>.\<close>

theorem C9_invalid_grant_falls_through_witness:
  "str_includes ''invalid_grant'' ''invalid_grant'' \<and>
   authorize ex_auth_env_invalid_grant ex_token_file =
     manualAuthentication ex_auth_env_invalid_grant ex_new_client
       (ex_token_file\<lparr>auth_trace := [RefreshAttempt]\<rparr>)"
proof -
  have a: "client_secret_json ex_auth_env_invalid_grant = Installed ''secret'' ''id'' ''http://localhost''"
    "token_json ex_token_file = Some (Json ex_tokens)"
    "\<not> falsy (ex_tokens ''refresh_token'')"
    "refresh_error ex_auth_env_invalid_grant = Some ''invalid_grant''"
    "str_includes ''invalid_grant'' ''invalid_grant''"
    by (simp_all add: ex_auth_defs falsy_def)
  show ?thesis
    using C9_invalid_grant_falls_through [OF a] a(5)
    by (simp add: ex_auth_defs)
qed

text \<open>
  Claim C9 as stated fails: the token file holds a \<open>refresh_token\<close>, the refresh answers
  \<open>invalid_grant\<close>, and \<open>authorize\<close> does not fail. It prompts the operator, exchanges
  the code, writes the token file and returns the client.
\<close>

theorem C9_no_recovery_counterexample:
  "token_json ex_token_file = Some (Json ex_tokens) \<and>
   ex_tokens ''refresh_token'' = Some ''r1'' \<and>
   refresh_error ex_auth_env_invalid_grant = Some ''invalid_grant'' \<and>
   authorize ex_auth_env_invalid_grant ex_token_file =
     (Returned (ex_new_client\<lparr>credentials := ex_tokens, listeners := [tokensListenerManual]\<rparr>),
      \<lparr>token_json = Some (Json ex_tokens),
       auth_trace = [RefreshAttempt, OperatorPrompt, CodeExchange ''4/abc'', TokenFileWrite]\<rparr>)"
  by (simp add: ex_auth_defs auth_defs)

section \<open>Error propagation\<close>

lemma pollTick_result:
  "fst (pollTick env f w) = (if pool w \<or> tick_connect env = None then Returned () else ProcessExit 1)"
proof -
  obtain r w1 where conn: "connectToDatabase (tick_connect env) w = (r, w1)" by force
  have r: "r = (if pool w \<or> tick_connect env = None then Returned () else ProcessExit 1)"
    using connect_result [of "tick_connect env" w] conn by simp
  show ?thesis
  proof (cases "pool w \<or> tick_connect env = None")
    case True
    then have rr: "r = Returned ()" using r by simp
    then have p: "pool (emit QueryPending w1)" using conn connect_returned_pool by simp
    show ?thesis
      using True conn rr processRows_pool [OF p, of "row_calls env" f "selectPending (emit QueryPending w1)"]
      by (auto simp: pollTick_def Let_def split: option.splits prod.splits completion.splits)
  next
    case False
    then show ?thesis using conn r by (auto simp: pollTick_def)
  qed
qed

lemma pollTick_query_fails:
  "pool w \<Longrightarrow> pending_query_error env = Some msg \<Longrightarrow> pollTick env f w = (Returned (), emit QueryPending w)"
  by (simp add: pollTick_def connect_pool)

lemma startup_result:
  "fst (startup env aw) =
     (case fst (authorize (auth_calls env) aw) of
        Returned auth \<Rightarrow>
          (case getOrCreateFolder (folder_calls env) (FOLDER_PATH env) of
             Returned folderId \<Rightarrow> Returned (auth, folderId)
           | Threw msg \<Rightarrow> ProcessExit 1
           | ProcessExit code \<Rightarrow> ProcessExit 1)
      | Threw msg \<Rightarrow> ProcessExit 1
      | ProcessExit code \<Rightarrow> ProcessExit 1)"
proof -
  obtain r aw1 where a: "authorize (auth_calls env) aw = (r, aw1)" by force
  have ra: "r \<noteq> ProcessExit code" for code
    using authorize_not_exit [of "auth_calls env" aw code] a by simp
  have rg: "getOrCreateFolder (folder_calls env) (FOLDER_PATH env) \<noteq> ProcessExit code" for code
    by (rule getOrCreateFolder_not_exit)
  show ?thesis
  proof (cases r)
    case (Returned auth)
    show ?thesis
    proof (cases "getOrCreateFolder (folder_calls env) (FOLDER_PATH env)")
      case (ProcessExit c)
      then show ?thesis using rg [of c] by simp
    qed (use Returned a in \<open>simp_all add: startup_def\<close>)
  next
    case (Threw msg)
    then show ?thesis using a by (simp add: startup_def)
  next
    case (ProcessExit code)
    then show ?thesis using ra by simp
  qed
qed

text \<open>
  Claim C3, as amended. Inside a tick (a pool exists) the loop body never ends the
  process and never throws past its \<open>catch\<close>, so the loop goes on with the next row
  whatever happened in the row; a rejected query for the pending rows abandons the
  tick and the tick returns. A tick ends the process, with code 1, exactly when no pool
  exists yet and the connection to the database fails. The retention sweep always
  returns. Startup ends the process with code 1 exactly when \<open>authorize\<close> or
  \<open>getOrCreateFolder\<close> throws.
\<close>

theorem C3_error_propagation:
  "(pool w \<longrightarrow>
      fst (processRow renv folderId row w) = Returned () \<and>
      processRows envs folderId (row # rest) w =
        processRows envs folderId rest (snd (processRow (envs row) folderId row w)) \<and>
      (pending_query_error env \<noteq> None \<longrightarrow> pollTick env folderId w = (Returned (), emit QueryPending w))) \<and>
   fst (pollTick env folderId w) =
     (if pool w \<or> tick_connect env = None then Returned () else ProcessExit 1) \<and>
   fst (deleteOldFiles senv folderId d) = Returned () \<and>
   fst (startup stenv aw) =
     (case fst (authorize (auth_calls stenv) aw) of
        Returned auth \<Rightarrow>
          (case getOrCreateFolder (folder_calls stenv) (FOLDER_PATH stenv) of
             Returned folderId \<Rightarrow> Returned (auth, folderId)
           | Threw msg \<Rightarrow> ProcessExit 1
           | ProcessExit code \<Rightarrow> ProcessExit 1)
      | Threw msg \<Rightarrow> ProcessExit 1
      | ProcessExit code \<Rightarrow> ProcessExit 1)"
  using processRow_pool(1) [of w renv folderId row] processRows_step [of w envs folderId row rest]
    pollTick_query_fails [of w env _ folderId] pollTick_result [of env folderId w]
    deleteOldFiles_not_exit [of senv folderId d] startup_result [of stenv aw]
  by auto

text \<open>
  A rejected upload, a rejected query, a database that cannot be reached at the first
  tick, a rejected deletion, and a storage provider that cannot be reached at startup.
\<close>

theorem C3_error_propagation_witness:
  "processRow ex_row_env_upload_fails ex_folder ex_row ex_world =
     (Returned (), ex_world\<lparr>trace := [DriveFilesCreate ''inv1.pdf'' ''%PDF'' ex_folder]\<rparr>) \<and>
   pollTick ex_tick_env_query_fails ex_folder ex_world =
     (Returned (), ex_world\<lparr>trace := [QueryPending]\<rparr>) \<and>
   fst (pollTick ex_tick_env_db_down ex_folder ex_world_start) = ProcessExit 1 \<and>
   fst (deleteOldFiles ex_sweep_env_a_fails ex_folder ex_drive) = Returned () \<and>
   fst (startup ex_startup_env_drive_down ex_no_token_file) = ProcessExit 1"
proof -
  have p: "pool ex_world" "\<not> pool ex_world_start" "tick_connect ex_tick_env_db_down \<noteq> None"
    "pending_query_error ex_tick_env_query_fails \<noteq> None"
    by (simp_all add: ex_defs ex_tick_env_query_fails_def)
  have row: "snd (processRow ex_row_env_upload_fails ex_folder ex_row ex_world) =
      ex_world\<lparr>trace := [DriveFilesCreate ''inv1.pdf'' ''%PDF'' ex_folder]\<rparr>"
    by (simp add: ex_defs run_defs ex_row_env_upload_fails_def)
  have q: "emit QueryPending ex_world = ex_world\<lparr>trace := [QueryPending]\<rparr>"
    by (simp add: emit_def ex_world_def)
  have a: "fst (authorize (auth_calls ex_startup_env_drive_down) ex_no_token_file) =
      Returned (ex_new_client\<lparr>credentials := ex_tokens, listeners := [tokensListenerManual]\<rparr>)"
    by (simp add: ex_auth_defs auth_defs)
  have g: "getOrCreateFolder (folder_calls ex_startup_env_drive_down)
      (FOLDER_PATH ex_startup_env_drive_down) = Threw ''ENOTFOUND''"
    by (simp add: ex_auth_defs getOrCreateFolder_def trim_def isWhiteSpace_def units_def)
  show ?thesis
    using C3_error_propagation [of ex_world ex_row_env_upload_fails ex_folder ex_row
        "\<lambda>r. ex_row_env_upload_fails" "[]" ex_tick_env_query_fails ex_sweep_env_a_fails ex_drive
        ex_startup_env_drive_down ex_no_token_file]
      C3_error_propagation [of ex_world_start ex_row_env_upload_fails ex_folder ex_row
        "\<lambda>r. ex_row_env_upload_fails" "[]" ex_tick_env_db_down ex_sweep_env_a_fails ex_drive
        ex_startup_env_drive_down ex_no_token_file]
      p row q a g
    by (simp add: prod_eq_iff)
qed

text \<open>
  Claim C3 as stated fails: at a tick with no pool yet, a failed connection to the
  database ends the process with code 1.
\<close>

theorem C3_database_failure_exits_counterexample:
  "pool ex_world_start = False \<and>
   tick_connect ex_tick_env_db_down = Some ''ECONNREFUSED'' \<and>
   pollTick ex_tick_env_db_down ex_folder ex_world_start =
     (ProcessExit 1, ex_world_start\<lparr>trace := [MssqlConnect]\<rparr>)"
  by (simp add: ex_defs pollTick_def connectToDatabase_def emit_def)

end
